theory Spec2Isabelle
  imports Main "HOL-Library.Word"
begin

section \<open>DNS messages and time\<close>

text \<open>
  The DNS codec (\<open>github.com/miekg/dns\<close>) is an external library. A resource record is
  kept as its header TTL (an unsigned 32-bit number of seconds) and its remaining content;
  a question record is an opaque value of type \<open>'q\<close> whose \<open>String()\<close> rendering is
  supplied by the library. A message carries the 16-bit transaction identifier, the
  truncated flag, the compression request, the questions and the answers.
\<close>

record RR =
  Ttl :: "32 word"
  rdata :: string

record 'q Msg =
  Id_hdr :: "16 word"
  Truncated :: bool
  Compress :: bool
  Question :: "'q list"
  Answer :: "RR list"

text \<open>
  \<open>time.Time\<close> after \<open>.UTC()\<close> carries no monotonic reading: it is a wall-clock instant,
  here a count of nanoseconds. \<open>time.Duration\<close> is a signed 64-bit count of nanoseconds.
\<close>

type_synonym time = int
type_synonym Duration = int

definition Second :: Duration where
  "Second = 1000000000"

definition Hour :: Duration where
  "Hour = 3600 * Second"

definition minDuration :: Duration where
  "minDuration = - (2 ^ 63)"

definition maxDuration :: Duration where
  "maxDuration = 2 ^ 63 - 1"

definition Add :: "time \<Rightarrow> Duration \<Rightarrow> time" where
  "Add t d = t + d"

definition Before :: "time \<Rightarrow> time \<Rightarrow> bool" where
  "Before t u = (t < u)"

text \<open>\<open>t.Sub(u)\<close> saturates at the ends of the 64-bit range of a duration.\<close>

definition Sub :: "time \<Rightarrow> time \<Rightarrow> Duration" where
  "Sub t u =
     (if t - u < minDuration then minDuration
      else if maxDuration < t - u then maxDuration
      else t - u)"

datatype error = IndexOutOfRange | NilDereference

section \<open>The response cache over an ARC store\<close>

text \<open>
  Source: package \<open>cache\<close> (\<open>Cache\<close>, \<open>CacheValue\<close>, \<open>New\<close>, \<open>Get\<close>, \<open>Put\<close>, \<open>key\<close>).
\<close>

record 'q CacheValue =
  cv_m :: "'q Msg"
  cv_exp :: time

text \<open>
  What the cache uses from outside the repository is collected in one record:
  \<^item> \<open>QString\<close>: \<open>dns.Question.String\<close>;
  \<^item> \<open>ARC_New\<close>, \<open>ARC_Get\<close>, \<open>ARC_Put\<close>: the store of \<open>github.com/alexanderGugel/arc\<close>
    with state \<open>'a\<close>. \<open>Get\<close> returns the stored interface value (\<open>None\<close> for nil), the
    \<open>ok\<close> flag and the store with its replacement metadata updated;
  \<^item> \<open>uint32_unrep\<close>: the result of Go's conversion \<open>uint32(f)\<close> for a float \<open>f\<close>
    that the target type cannot represent, which the language leaves to the
    implementation; the argument is the duration being converted.
\<close>

record ('q, 'a) library =
  QString :: "'q \<Rightarrow> string"
  ARC_New :: "int \<Rightarrow> 'a"
  ARC_Get :: "'a \<Rightarrow> string \<Rightarrow> ('q CacheValue option \<times> bool) \<times> 'a"
  ARC_Put :: "'a \<Rightarrow> string \<Rightarrow> 'q CacheValue \<Rightarrow> 'a"
  uint32_unrep :: "Duration \<Rightarrow> 32 word"

record 'a Cache =
  c_arc :: 'a

definition maxTTL :: Duration where
  "maxTTL = 24 * Hour"

definition New :: "('q, 'a) library \<Rightarrow> int \<Rightarrow> 'a Cache" where
  "New L sz = \<lparr>c_arc = ARC_New L sz\<rparr>"

text \<open>\<open>k.Question[0].String()\<close>: indexing an empty question list panics.\<close>

definition key :: "('q, 'a) library \<Rightarrow> 'q Msg \<Rightarrow> error + string" where
  "key L k = (case Question k of [] \<Rightarrow> Inl IndexOutOfRange | q # _ \<Rightarrow> Inr (QString L q))"

text \<open>
  \<open>uint32(time.Since(v.exp).Seconds() * -1)\<close> for the duration \<open>d = time.Since(v.exp)\<close>.
  \<open>Seconds()\<close> is the float \<open>d / Second + (d % Second) / 1e9\<close>; the conversion
  discards the fraction. For a remaining time \<open>- d\<close> between minus one second and
  \<open>2 ^ 23\<close> seconds the float arithmetic is exact enough for the result to be the whole
  seconds of \<open>- d\<close>, rounded towards zero; outside that window the value is left to
  \<open>uint32_unrep\<close>.
\<close>

definition ttl_left :: "('q, 'a) library \<Rightarrow> Duration \<Rightarrow> 32 word" where
  "ttl_left L d =
     (let r = - d in
      if - Second < r \<and> r < 2 ^ 23 * Second
      then (if r < 0 then 0 else word_of_int (r div Second))
      else uint32_unrep L d)"

text \<open>
  The loop of \<open>Put\<close> over the answers: the running minimum of the expiration instants.
\<close>

fun min_expiration :: "time \<Rightarrow> RR list \<Rightarrow> time \<Rightarrow> time" where
  "min_expiration now [] minExpirationTime = minExpirationTime"
| "min_expiration now (a # as) minExpirationTime =
     (let exp = Add now (uint (Ttl a) * Second)
      in min_expiration now as (if Before exp minExpirationTime then exp else minExpirationTime))"

text \<open>
  \<open>Put\<close> reads the clock once (\<open>now\<close>). The key is computed where the source computes
  it: as an argument of the log call on the empty-answer path, and as an argument of the
  store's \<open>Put\<close> otherwise; a panic there leaves the store untouched.
\<close>

definition Put :: "('q, 'a) library \<Rightarrow> 'a Cache \<Rightarrow> 'q Msg \<Rightarrow> 'q Msg \<Rightarrow> time \<Rightarrow> error + 'a Cache" where
  "Put L c k v now =
     (let minExpirationTime = Add now maxTTL in
      if length (Answer v) = 0 then
        (case key L k of Inl e \<Rightarrow> Inl e | Inr _ \<Rightarrow> Inr c)
      else
        (let minExpirationTime = min_expiration now (Answer v) minExpirationTime;
             cm = v\<lparr>Truncated := False, Compress := True\<rparr>
         in case key L k of
              Inl e \<Rightarrow> Inl e
            | Inr ks \<Rightarrow>
                Inr (c\<lparr>c_arc := ARC_Put L (c_arc c) ks \<lparr>cv_m = cm, cv_exp = minExpirationTime\<rparr>\<rparr>)))"

text \<open>
  \<open>Get\<close> reads the clock once for the expiry test (\<open>clk 0\<close>) and, on a fresh hit, once
  more for every answer record, inside the loop (\<open>clk 1\<close>, \<open>clk 2\<close>, ...).
\<close>

fun rewrite_ttl :: "('q, 'a) library \<Rightarrow> (nat \<Rightarrow> time) \<Rightarrow> time \<Rightarrow> nat \<Rightarrow> RR list \<Rightarrow> RR list" where
  "rewrite_ttl L clk exp i [] = []"
| "rewrite_ttl L clk exp i (a # as) =
     a\<lparr>Ttl := ttl_left L (Sub (clk (Suc i)) exp)\<rparr> # rewrite_ttl L clk exp (Suc i) as"

definition Get ::
  "('q, 'a) library \<Rightarrow> 'a Cache \<Rightarrow> 'q Msg \<Rightarrow> (nat \<Rightarrow> time) \<Rightarrow>
     error + (('q Msg option \<times> bool) \<times> 'a Cache)" where
  "Get L c mk clk =
     (case key L mk of
        Inl e \<Rightarrow> Inl e
      | Inr k \<Rightarrow>
          (case ARC_Get L (c_arc c) k of
             ((r, ok), a') \<Rightarrow>
               (let c' = c\<lparr>c_arc := a'\<rparr> in
                case (if ok then r else None) of
                  None \<Rightarrow> Inr ((None, False), c')
                | Some v \<Rightarrow>
                    (let mv = (cv_m v)\<lparr>Id_hdr := Id_hdr mk\<rparr> in
                     if Before (cv_exp v) (clk 0)
                     then Inr ((Some (mv\<lparr>Answer := map (\<lambda>a. a\<lparr>Ttl := 60\<rparr>) (Answer mv)\<rparr>), False), c')
                     else Inr ((Some (mv\<lparr>Answer := rewrite_ttl L clk (cv_exp v) 0 (Answer mv)\<rparr>), True), c')))))"


text \<open>
  A small least-recently-used store with the interface of the ARC store (capacity, and
  the entries from the most to the least recently used), and a library built on it in
  which a question record is its own rendering. The theorems about \<open>Get\<close> and \<open>Put\<close>
  hold for every library; this one is where they are instantiated on concrete inputs.
\<close>

type_synonym 'q lru_store = "nat \<times> (string \<times> 'q CacheValue) list"

definition lru_Get :: "'q lru_store \<Rightarrow> string \<Rightarrow> ('q CacheValue option \<times> bool) \<times> 'q lru_store" where
  "lru_Get s k =
     (case map_of (snd s) k of
        None \<Rightarrow> ((None, False), s)
      | Some v \<Rightarrow> ((Some v, True), (fst s, (k, v) # filter (\<lambda>p. fst p \<noteq> k) (snd s))))"

definition lru_Put :: "'q lru_store \<Rightarrow> string \<Rightarrow> 'q CacheValue \<Rightarrow> 'q lru_store" where
  "lru_Put s k v = (fst s, take (fst s) ((k, v) # filter (\<lambda>p. fst p \<noteq> k) (snd s)))"

definition lru_library :: "(string, string lru_store) library" where
  "lru_library =
     \<lparr>QString = (\<lambda>q. q), ARC_New = (\<lambda>n. (nat n, [])), ARC_Get = lru_Get, ARC_Put = lru_Put,
      uint32_unrep = (\<lambda>d. 0)\<rparr>"

section \<open>The server\<close>

text \<open>Source: package \<open>proxy\<close>, \<open>server.go\<close>.\<close>

definition defaultCacheSize :: int where
  "defaultCacheSize = 65536"

definition connectionTimeout :: Duration where
  "connectionTimeout = 10 * Second"

definition connectionsPerUpstream :: nat where
  "connectionsPerUpstream = 5"

definition refreshQueueSize :: nat where
  "refreshQueueSize = 2048"

definition resolutionMilliseconds :: int where
  "resolutionMilliseconds = 500"

text \<open>
  In the server the instants are counted from the zero value of \<open>time.Time\<close> (January 1,
  year 1, 00:00 UTC), which is what a field of type \<open>time.Time\<close> holds until it is
  assigned. Every instant the system clock can deliver lies after it.
\<close>

definition zero_Time :: time where
  "zero_Time = 0"

record Config =
  MinVersion :: "16 word"
  ServerName :: string

definition VersionTLS12 :: "16 word" where
  "VersionTLS12 = 0x0303"

text \<open>
  A pool is kept as the upstream address its connector was built from (each pool is
  \<open>newPool(connectionsPerUpstream, s.connector(addr))\<close>). The refresh queue \<open>rq\<close> is the
  content of the buffered channel. \<open>dial\<close> returns the connection or the dial error.
\<close>

record ('q, 'c, 'e, 'conn) Server =
  cache :: 'c
  pools :: "string list"
  rq :: "'q Msg list"
  dial :: "string \<Rightarrow> Config \<Rightarrow> 'e + 'conn"
  currentTime :: time
  startTime :: time

text \<open>
  \<open>NewServer\<close>: \<open>newCache\<close> (of the repository's cache wrapper) and \<open>tls.Dial\<close> are taken
  as parameters; \<open>None\<close> is the \<open>log.Fatal\<close> exit. The struct literal assigns \<open>cache\<close>,
  \<open>rq\<close> and \<open>dial\<close>; \<open>currentTime\<close> and \<open>startTime\<close> keep the zero value.
\<close>

definition NewServer ::
  "(int \<Rightarrow> bool \<Rightarrow> 'c option) \<Rightarrow> (string \<Rightarrow> Config \<Rightarrow> 'e + 'conn) \<Rightarrow>
     int \<Rightarrow> bool \<Rightarrow> string list \<Rightarrow> ('q, 'c, 'e, 'conn) Server option" where
  "NewServer newCache tls_Dial cacheSize evictMetrics upstreamServers =
     (let cacheSize = (if cacheSize = 0 then defaultCacheSize
                       else if cacheSize < 0 then 0 else cacheSize)
      in case newCache cacheSize evictMetrics of
           None \<Rightarrow> None
         | Some ch \<Rightarrow>
             Some \<lparr>cache = ch,
                   pools = (if length upstreamServers = 0
                            then [''one.one.one.one:853@1.1.1.1'', ''dns.google:853@8.8.8.8'']
                            else upstreamServers),
                   rq = [],
                   dial = tls_Dial,
                   currentTime = zero_Time,
                   startTime = zero_Time\<rparr>)"

text \<open>\<open>strings.Split(s, sep)\<close> for a separator of one character.\<close>

fun Split :: "string \<Rightarrow> char \<Rightarrow> string list" where
  "Split [] sep = [[]]"
| "Split (x # xs) sep =
     (if x = sep then [] # Split xs sep
      else (case Split xs sep of [] \<Rightarrow> [[x]] | y # ys \<Rightarrow> (x # y) # ys))"

text \<open>
  \<open>connector\<close>: the closure returned for one upstream address, run once.
  \<open>net.SplitHostPort\<close> is the parameter \<open>shp\<close>.
\<close>

definition connector ::
  "(string \<Rightarrow> 'e + string \<times> string) \<Rightarrow> ('q, 'c, 'e, 'conn) Server \<Rightarrow> string \<Rightarrow> 'e + 'conn" where
  "connector shp s upstreamServer =
     (let tlsConf = \<lparr>MinVersion = VersionTLS12, ServerName = []\<rparr>;
          dialableAddress = upstreamServer;
          serverComponents = Split upstreamServer (CHR ''@'')
      in if length serverComponents = 2 then
           (case shp (serverComponents ! 0) of
              Inl err \<Rightarrow> Inl err
            | Inr (servername, port) \<Rightarrow>
                dial s (serverComponents ! 1 @ '':'' @ port) (tlsConf\<lparr>ServerName := servername\<rparr>))
         else dial s dialableAddress tlsConf)"

text \<open>
  Go's \<open>net.SplitHostPort\<close>, for instantiating \<open>shp\<close> on concrete addresses.
\<close>

datatype AddrError = MissingPort | TooManyColons | MissingBracket | UnexpectedOpen | UnexpectedClose | DialFailed

fun IndexByte :: "string \<Rightarrow> char \<Rightarrow> nat option" where
  "IndexByte [] c = None"
| "IndexByte (x # xs) c = (if x = c then Some 0 else map_option Suc (IndexByte xs c))"

fun LastIndexByte :: "string \<Rightarrow> char \<Rightarrow> nat option" where
  "LastIndexByte [] c = None"
| "LastIndexByte (x # xs) c =
     (case LastIndexByte xs c of
        Some i \<Rightarrow> Some (Suc i)
      | None \<Rightarrow> (if x = c then Some 0 else None))"

definition SplitHostPort_rest ::
  "string \<Rightarrow> string \<Rightarrow> nat \<Rightarrow> nat \<Rightarrow> nat \<Rightarrow> AddrError + string \<times> string" where
  "SplitHostPort_rest hostport host i j k =
     (if IndexByte (drop j hostport) (CHR ''['') \<noteq> None then Inl UnexpectedOpen
      else if IndexByte (drop k hostport) (CHR '']'') \<noteq> None then Inl UnexpectedClose
      else Inr (host, drop (Suc i) hostport))"

definition SplitHostPort :: "string \<Rightarrow> AddrError + string \<times> string" where
  "SplitHostPort hostport =
     (case LastIndexByte hostport (CHR '':'') of
        None \<Rightarrow> Inl MissingPort
      | Some i \<Rightarrow>
          (if take 1 hostport = ''['' then
             (case IndexByte hostport (CHR '']'') of
                None \<Rightarrow> Inl MissingBracket
              | Some e \<Rightarrow>
                  if e + 1 = length hostport then Inl MissingPort
                  else if e + 1 = i then
                    SplitHostPort_rest hostport (take (e - 1) (drop 1 hostport)) i 1 (e + 1)
                  else if take 1 (drop (e + 1) hostport) = '':'' then Inl TooManyColons
                  else Inl MissingPort)
           else
             (let host = take i hostport
              in if IndexByte host (CHR '':'') \<noteq> None then Inl TooManyColons
                 else SplitHostPort_rest hostport host i 0 0)))"

subsection \<open>The coarse clock\<close>

text \<open>
  \<open>Run\<close> starts the refresher, the ticker task and the listeners and then assigns
  \<open>startTime\<close>; its effect on the clock state is that assignment, \<open>now_sys\<close> being the
  reading of \<open>time.Now()\<close>. \<open>timer\<close> stores every instant the ticker delivers, here the
  list of the instants delivered so far. \<open>now\<close> returns the stored instant.
\<close>

definition Run :: "('q, 'c, 'e, 'conn) Server \<Rightarrow> time \<Rightarrow> ('q, 'c, 'e, 'conn) Server" where
  "Run s now_sys = s\<lparr>startTime := now_sys\<rparr>"

fun timer :: "('q, 'c, 'e, 'conn) Server \<Rightarrow> time list \<Rightarrow> ('q, 'c, 'e, 'conn) Server" where
  "timer s [] = s"
| "timer s (t # ts) = timer (s\<lparr>currentTime := t\<rparr>) ts"

definition now :: "('q, 'c, 'e, 'conn) Server \<Rightarrow> time" where
  "now s = currentTime s"


subsection \<open>One exchange on a pooled connection\<close>

text \<open>
  \<open>exchangeMessages\<close>: what the pool and the connection deliver is the input \<open>io\<close>
  (the result of \<open>p.get()\<close>, of \<open>c.WriteMsg\<close> and of \<open>c.ReadMsg\<close>); the result is the
  pair \<open>(resp, err)\<close> of the source, with the deadline set on the connection and what
  the deferred function does with it.
\<close>

datatype exchange_error = GetFailed | WriteFailed | ReadFailed | errNilResponse

datatype conn_fate = NoConn | Closed | PutBack

record 'm exchange_io =
  io_get :: "exchange_error option"
  io_write :: "exchange_error option"
  io_read :: "exchange_error + 'm option"

definition exchangeMessages ::
  "('q, 'c, 'e, 'conn) Server \<Rightarrow> 'm exchange_io \<Rightarrow>
     ('m option \<times> exchange_error option) \<times> time option \<times> conn_fate" where
  "exchangeMessages s io =
     (case io_get io of
        Some err \<Rightarrow> ((None, Some err), None, NoConn)
      | None \<Rightarrow>
          (let deadline = Some (Add (now s) connectionTimeout) in
           case io_write io of
             Some err \<Rightarrow> ((None, Some err), deadline, Closed)
           | None \<Rightarrow>
               (case io_read io of
                  Inl err \<Rightarrow> ((None, Some err), deadline, Closed)
                | Inr None \<Rightarrow> ((None, Some errNilResponse), deadline, Closed)
                | Inr (Some resp) \<Rightarrow> ((Some resp, None), deadline, PutBack))))"

subsection \<open>The fan-out\<close>

text \<open>
  The task started for one pool sends on the channel \<open>resps\<close>:
  \<^verbatim>\<open>
    r, err := s.exchangeMessages(p, q)
    if err != nil || r == nil {
        resps <- nil
    }
    resps <- r
  \<close>
  \<open>task_sends\<close> is the sequence of values that task sends.
\<close>

definition task_sends :: "'m option \<times> exchange_error option \<Rightarrow> 'm option list" where
  "task_sends res =
     (case res of (r, err) \<Rightarrow> (if err \<noteq> None \<or> r = None then [None] else []) @ [r])"

text \<open>
  The tasks run concurrently: the channel receives their values in some interleaving of
  the tasks' sequences. \<open>arrivals\<close> is the set of these orders, for the list of the
  tasks' sequences.
\<close>

fun arrivals :: "'a list list \<Rightarrow> 'a list set" where
  "arrivals [] = {[]}"
| "arrivals (xs # xss) = (\<Union>ys \<in> arrivals xss. shuffles xs ys)"

text \<open>
  A call that waits on a channel on which nothing more arrives never returns.
\<close>

datatype 'a outcome = Returned 'a | Blocked

text \<open>
  The collecting loop \<open>for c := 0; c < len(s.pools); c++ { if r := <-resps; r != nil
  { return r } }; return nil\<close>, with the number of iterations left and what arrives on
  the channel, in order.
\<close>

fun collect :: "nat \<Rightarrow> 'm option list \<Rightarrow> 'm option outcome" where
  "collect 0 ch = Returned None"
| "collect (Suc n) [] = Blocked"
| "collect (Suc n) (r # ch) = (if r \<noteq> None then Returned r else collect n ch)"

definition forwardMessageAndGetResponse ::
  "('q, 'c, 'e, 'conn) Server \<Rightarrow> 'm option list \<Rightarrow> 'm option outcome" where
  "forwardMessageAndGetResponse s ch = collect (length (pools s)) ch"

subsection \<open>Retries and cache insertion\<close>

text \<open>
  The network as the resolver sees it: \<open>arrival i\<close> is what arrives on the channel of the
  \<open>i\<close>-th fan-out, and \<open>fanouts\<close> counts the fan-outs issued so far.
\<close>

record 'm world =
  arrival :: "nat \<Rightarrow> 'm option list"
  fanouts :: nat

definition fan_out ::
  "('q, 'c, 'e, 'conn) Server \<Rightarrow> 'm world \<Rightarrow> 'm option outcome \<times> 'm world" where
  "fan_out s w =
     (forwardMessageAndGetResponse s (arrival w (fanouts w)), w\<lparr>fanouts := Suc (fanouts w)\<rparr>)"

text \<open>The loop \<open>for c := 0; m == nil && c < 2; c++ { m = s.forwardMessageAndGetResponse(q) }\<close>.\<close>

function retry ::
  "('q, 'c, 'e, 'conn) Server \<Rightarrow> nat \<Rightarrow> 'm option \<Rightarrow> 'm world \<Rightarrow> 'm option outcome \<times> 'm world" where
  "retry s c m w =
     (if m = None \<and> c < 2 then
        (case fan_out s w of
           (Blocked, w') \<Rightarrow> (Blocked, w')
         | (Returned m', w') \<Rightarrow> retry s (c + 1) m' w')
      else (Returned m, w))"
  by pat_completeness auto
termination
  by (relation "measure (\<lambda>(s, c, m, w). 2 - c)") auto

declare retry.simps [simp del]

text \<open>
  \<open>forwardMessageAndCacheResponse\<close>: \<open>cput\<close> is the \<open>put\<close> of the server's cache.
\<close>

definition forwardMessageAndCacheResponse ::
  "('c \<Rightarrow> 'q Msg \<Rightarrow> 'q Msg \<Rightarrow> 'c) \<Rightarrow> ('q, 'c, 'e, 'conn) Server \<Rightarrow> 'q Msg world \<Rightarrow> 'q Msg \<Rightarrow>
     'q Msg option outcome \<times> ('q, 'c, 'e, 'conn) Server \<times> 'q Msg world" where
  "forwardMessageAndCacheResponse cput s w q =
     (case fan_out s w of
        (Blocked, w1) \<Rightarrow> (Blocked, s, w1)
      | (Returned m, w1) \<Rightarrow>
          (case retry s 0 m w1 of
             (Blocked, w2) \<Rightarrow> (Blocked, s, w2)
           | (Returned None, w2) \<Rightarrow> (Returned None, s, w2)
           | (Returned (Some r), w2) \<Rightarrow>
               (Returned (Some r), s\<lparr>cache := cput (cache s) q r\<rparr>, w2)))"

subsection \<open>Answering a query\<close>

text \<open>\<open>refresh\<close>: a send on the buffered channel that is dropped when the buffer is full.\<close>

definition refresh :: "('q, 'c, 'e, 'conn) Server \<Rightarrow> 'q Msg \<Rightarrow> ('q, 'c, 'e, 'conn) Server" where
  "refresh s q = (if length (rq s) < refreshQueueSize then s\<lparr>rq := rq s @ [q]\<rparr> else s)"

text \<open>\<open>getAnswer\<close>: \<open>cget\<close> is the \<open>get\<close> of the server's cache.\<close>

definition getAnswer ::
  "('c \<Rightarrow> 'q Msg \<Rightarrow> ('q Msg option \<times> bool) \<times> 'c) \<Rightarrow> ('c \<Rightarrow> 'q Msg \<Rightarrow> 'q Msg \<Rightarrow> 'c) \<Rightarrow>
     ('q, 'c, 'e, 'conn) Server \<Rightarrow> 'q Msg world \<Rightarrow> 'q Msg \<Rightarrow>
     'q Msg option outcome \<times> ('q, 'c, 'e, 'conn) Server \<times> 'q Msg world" where
  "getAnswer cget cput s w q =
     (case cget (cache s) q of
        ((m, ok), ch) \<Rightarrow>
          (let s1 = s\<lparr>cache := ch\<rparr> in
           if ok then (Returned m, s1, w)
           else if m \<noteq> None then (Returned m, refresh s1 q, w)
           else forwardMessageAndCacheResponse cput s1 w q))"

text \<open>
  \<open>ServeDNS\<close>: the first statement logs \<open>q.Question[0]\<close>, whose evaluation panics on an
  empty question list before the cache is consulted. Otherwise the handler replies with
  the answer, or with a server failure when there is none.
\<close>

datatype 'm reply = WriteMsg 'm | HandleFailed

definition ServeDNS ::
  "('c \<Rightarrow> 'q Msg \<Rightarrow> ('q Msg option \<times> bool) \<times> 'c) \<Rightarrow> ('c \<Rightarrow> 'q Msg \<Rightarrow> 'q Msg \<Rightarrow> 'c) \<Rightarrow>
     ('q, 'c, 'e, 'conn) Server \<Rightarrow> 'q Msg world \<Rightarrow> 'q Msg \<Rightarrow>
     error + ('q Msg reply outcome \<times> ('q, 'c, 'e, 'conn) Server \<times> 'q Msg world)" where
  "ServeDNS cget cput s w q =
     (case Question q of
        [] \<Rightarrow> Inl IndexOutOfRange
      | _ # _ \<Rightarrow>
          (case getAnswer cget cput s w q of
             (Blocked, s', w') \<Rightarrow> Inr (Blocked, s', w')
           | (Returned None, s', w') \<Rightarrow> Inr (Returned HandleFailed, s', w')
           | (Returned (Some m), s', w') \<Rightarrow> Inr (Returned (WriteMsg m), s', w')))"


section \<open>The two-store cache\<close>

text \<open>
  Source: package \<open>specialized\<close>, \<open>cache.go\<close> (\<open>Cache\<close>, \<open>NewCache\<close>, \<open>Put\<close>, \<open>Len\<close>,
  \<open>Cap\<close>, \<open>now\<close>). Go's \<open>uint\<close> is taken at 64 bits.
\<close>

type_synonym uint = "64 word"

text \<open>
  Modelled from the spec: the type \<open>store\<close> of package \<open>specialized\<close> and its methods
  \<open>newStore\<close>, \<open>update\<close>, \<open>put\<close>, \<open>peek\<close>, \<open>Len\<close>, \<open>cap\<close> and \<open>reset\<close> are not among the
  sources; only their calls in \<open>cache.go\<close> are. The spec describes the container as
  bounded, with a capacity fixed at construction, and with an eviction that replaces the
  entry least likely to be reused, ties broken deterministically. The model follows these
  words and the calls: an item carries its key, its value, its number of accesses \<open>a\<close>
  and the time \<open>t\<close> of its last access; a store is the list of its items, its capacity
  and the order it evicts by; \<open>put\<close> on a full store first takes out the least item and
  hands it back to the caller (the zero item when there was room); \<open>update\<close> changes an
  item that is present and reports whether it was; \<open>peek\<close> is the least item; \<open>reset\<close>
  renumbers the access times from a given time on, keeping their order.
\<close>

record 'v item =
  item_key :: string
  item_v :: "'v option"
  item_a :: uint
  item_t :: uint

datatype policy = byTime | byAccesses

record 'v store =
  pq :: "'v item list"
  store_cap :: nat
  by_policy :: policy

text \<open>Modelled from the spec: the zero value of the missing \<open>item\<close> struct.\<close>

definition zero_item :: "'v item" where
  "zero_item = \<lparr>item_key = [], item_v = None, item_a = 0, item_t = 0\<rparr>"

text \<open>Modelled from the spec: the missing \<open>newStore\<close>; the capacity is fixed here.\<close>

definition newStore :: "int \<Rightarrow> policy \<Rightarrow> 'v store" where
  "newStore sz p = \<lparr>pq = [], store_cap = nat sz, by_policy = p\<rparr>"

text \<open>Modelled from the spec: the missing \<open>store.Len\<close> and \<open>store.cap\<close>.\<close>

definition store_Len :: "'v store \<Rightarrow> nat" where
  "store_Len s = length (pq s)"

definition store_capf :: "'v store \<Rightarrow> nat" where
  "store_capf s = store_cap s"

text \<open>
  Modelled from the spec: the order of the missing store, by time of last access or by
  number of accesses (then by time), and its least item, the first one among equals.
\<close>

fun less_item :: "policy \<Rightarrow> 'v item \<Rightarrow> 'v item \<Rightarrow> bool" where
  "less_item byTime i j = (item_t i < item_t j)"
| "less_item byAccesses i j =
     (item_a i < item_a j \<or> (item_a i = item_a j \<and> item_t i < item_t j))"

fun least :: "policy \<Rightarrow> 'v item \<Rightarrow> 'v item list \<Rightarrow> 'v item" where
  "least p x [] = x"
| "least p x (y # ys) = least p (if less_item p y x then y else x) ys"

text \<open>Modelled from the spec: the missing \<open>store.peek\<close>; an empty store has no first item.\<close>

definition peek :: "'v store \<Rightarrow> error + 'v item" where
  "peek s = (case pq s of [] \<Rightarrow> Inl IndexOutOfRange | x # xs \<Rightarrow> Inr (least (by_policy s) x xs))"

text \<open>
  Modelled from the spec: the missing \<open>store.update\<close>; it changes the item under the key
  and reports whether there was one.
\<close>

definition store_update :: "'v store \<Rightarrow> uint \<Rightarrow> string \<Rightarrow> 'v option \<Rightarrow> bool \<times> 'v store" where
  "store_update s now_t k v =
     (case find (\<lambda>i. item_key i = k) (pq s) of
        None \<Rightarrow> (False, s)
      | Some _ \<Rightarrow>
          (True,
           s\<lparr>pq := map (\<lambda>i. if item_key i = k
                              then i\<lparr>item_v := v, item_a := item_a i + 1, item_t := now_t\<rparr>
                              else i) (pq s)\<rparr>))"

text \<open>
  Modelled from the spec: the missing \<open>store.put\<close>; a full store gives up its least item,
  which is returned, before the new item is added.
\<close>

definition store_put ::
  "'v store \<Rightarrow> uint \<Rightarrow> string \<Rightarrow> 'v option \<Rightarrow> uint \<Rightarrow> error + 'v item \<times> 'v store" where
  "store_put s now_t k v a =
     (let new = \<lparr>item_key = k, item_v = v, item_a = a, item_t = now_t\<rparr> in
      if length (pq s) = store_cap s then
        (case peek s of
           Inl e \<Rightarrow> Inl e
         | Inr ovf \<Rightarrow> Inr (ovf, s\<lparr>pq := remove1 ovf (pq s) @ [new]\<rparr>))
      else Inr (zero_item, s\<lparr>pq := pq s @ [new]\<rparr>))"

text \<open>
  Modelled from the spec: the missing \<open>store.reset\<close>; the access times are renumbered
  after \<open>t0\<close> in their order, and the last time given out is returned.
\<close>

definition reset :: "'v store \<Rightarrow> uint \<Rightarrow> uint \<times> 'v store" where
  "reset s t0 =
     (t0 + of_nat (length (pq s)),
      s\<lparr>pq := map (\<lambda>i. i\<lparr>item_t := t0 + 1 + of_nat (length (filter (\<lambda>j. item_t j < item_t i) (pq s)))\<rparr>)
                  (pq s)\<rparr>)"

text \<open>
  The cache. The mutex is left out: the operations are modelled one at a time. A nil
  \<open>*Cache\<close> is \<open>None\<close>. The field \<open>timeNow\<close> is an installed timer function; its
  reading is the argument \<open>tn\<close> of the operations (\<open>None\<close> when no timer is installed).
\<close>

record 'v sp_Cache =
  lru :: "'v store"
  mfa :: "'v store"
  sp_t :: uint
  capacity :: int

definition maxsize :: int where
  "maxsize = (2 ^ 64 - 1) div 2"

datatype cache_error = SizeBelowTwo int | SizeAboveLimit int

text \<open>\<open>NewCache\<close>: \<open>sz\<close> is a Go \<open>int\<close>; \<open>uint(size)\<close> is its value modulo \<open>2 ^ 64\<close>.\<close>

definition NewCache :: "int \<Rightarrow> cache_error + 'v sp_Cache option" where
  "NewCache sz =
     (if sz \<le> 0 then Inr None
      else if sz < 2 then Inl (SizeBelowTwo sz)
      else if maxsize < sz mod 2 ^ 64 then Inl (SizeAboveLimit sz)
      else Inr (Some \<lparr>lru = newStore (sz div 2) byTime,
                       mfa = newStore (sz div 2 + sz mod 2) byAccesses,
                       sp_t = 0,
                       capacity = sz\<rparr>))"

definition sp_now :: "'v sp_Cache \<Rightarrow> uint option \<Rightarrow> uint \<times> 'v sp_Cache" where
  "sp_now c tn =
     (case tn of
        Some r \<Rightarrow> (r, c)
      | None \<Rightarrow>
          (let t1 = sp_t c + 1 in
           if t1 = 0 then
             (case reset (lru c) t1 of
                (t2, l) \<Rightarrow>
                  (case reset (mfa c) t2 of
                     (t3, m) \<Rightarrow> (t3, c\<lparr>lru := l, mfa := m, sp_t := t3\<rparr>)))
           else (t1, c\<lparr>sp_t := t1\<rparr>)))"

text \<open>
  \<open>Put\<close>, branch by branch as in the source. The last \<open>lru.put\<close> drops what it hands
  back.
\<close>

definition sp_Put ::
  "'v sp_Cache option \<Rightarrow> string \<Rightarrow> 'v option \<Rightarrow> uint option \<Rightarrow> error + 'v sp_Cache option" where
  "sp_Put co k v tn =
     (case co of
        None \<Rightarrow> Inr None
      | Some c0 \<Rightarrow>
          (case sp_now c0 tn of
             (now_t, c) \<Rightarrow>
               (case store_update (mfa c) now_t k v of
                  (True, m1) \<Rightarrow> Inr (Some (c\<lparr>mfa := m1\<rparr>))
                | (False, _) \<Rightarrow>
                    (case store_update (lru c) now_t k v of
                       (True, l1) \<Rightarrow> Inr (Some (c\<lparr>lru := l1\<rparr>))
                     | (False, _) \<Rightarrow>
                         (case store_put (lru c) now_t k v 1 of
                            Inl e \<Rightarrow> Inl e
                          | Inr (lruovf, l2) \<Rightarrow>
                              (let c2 = c\<lparr>lru := l2\<rparr> in
                               if item_v lruovf = None then Inr (Some c2)
                               else if store_Len (mfa c2) < store_capf (mfa c2) then
                                 (case store_put (mfa c2) now_t (item_key lruovf) (item_v lruovf) (item_a lruovf) of
                                    Inl e \<Rightarrow> Inl e
                                  | Inr (_, m2) \<Rightarrow> Inr (Some (c2\<lparr>mfa := m2\<rparr>)))
                               else
                                 (case peek (mfa c2) of
                                    Inl e \<Rightarrow> Inl e
                                  | Inr p \<Rightarrow>
                                      if item_a p < item_a lruovf \<or>
                                         (item_a p = item_a lruovf \<and> item_t p < item_t lruovf)
                                      then Inr (Some c2)
                                      else
                                        (case store_put (mfa c2) now_t (item_key lruovf) (item_v lruovf) (item_a lruovf) of
                                           Inl e \<Rightarrow> Inl e
                                         | Inr (mfaovf, m3) \<Rightarrow>
                                             (let c3 = c2\<lparr>mfa := m3\<rparr> in
                                              if 0 < store_Len (lru c3) then
                                                (case peek (lru c3) of
                                                   Inl e \<Rightarrow> Inl e
                                                 | Inr pl \<Rightarrow>
                                                     if item_a pl < item_a mfaovf then
                                                       (case store_put (lru c3) now_t (item_key mfaovf) (item_v mfaovf) 1 of
                                                          Inl e \<Rightarrow> Inl e
                                                        | Inr (_, l3) \<Rightarrow> Inr (Some (c3\<lparr>lru := l3\<rparr>)))
                                                     else Inr (Some c3))
                                              else Inr (Some c3))))))))))"

text \<open>\<open>Len\<close> and \<open>Cap\<close> lock the mutex of the receiver without a nil check.\<close>

definition sp_Len :: "'v sp_Cache option \<Rightarrow> error + nat" where
  "sp_Len co =
     (case co of None \<Rightarrow> Inl NilDereference
      | Some c \<Rightarrow> Inr (store_Len (lru c) + store_Len (mfa c)))"

definition sp_Cap :: "'v sp_Cache option \<Rightarrow> error + nat" where
  "sp_Cap co =
     (case co of None \<Rightarrow> Inl NilDereference
      | Some c \<Rightarrow> Inr (store_capf (lru c) + store_capf (mfa c)))"

text \<open>A sequence of \<open>Put\<close> calls, each with its key, its value and the timer reading.\<close>

fun sp_Puts ::
  "'v sp_Cache option \<Rightarrow> (string \<times> 'v option \<times> uint option) list \<Rightarrow> error + 'v sp_Cache option" where
  "sp_Puts co [] = Inr co"
| "sp_Puts co ((k, v, tn) # ops) =
     (case sp_Put co k v tn of Inl e \<Rightarrow> Inl e | Inr co' \<Rightarrow> sp_Puts co' ops)"


section \<open>Concrete inputs\<close>

text \<open>
  A query, responses to it with one answer record of a given TTL or with none, the cache
  that holds the response of TTL 300 inserted at instant 0, a clock
  that reads the same instant at every reading, a dial function whose connection records
  what was dialed (one address cannot be reached), and a server built on it.
\<close>

definition ex_query :: "string Msg" where
  "ex_query =
     \<lparr>Id_hdr = 7, Truncated = False, Compress = False,
      Question = ['';example.org. IN A''], Answer = []\<rparr>"

definition ex_response :: "32 word \<Rightarrow> string Msg" where
  "ex_response ttl =
     \<lparr>Id_hdr = 9, Truncated = True, Compress = False,
      Question = ['';example.org. IN A''],
      Answer = [\<lparr>Ttl = ttl, rdata = ''192.0.2.1''\<rparr>]\<rparr>"

definition ex_empty_response :: "string Msg" where
  "ex_empty_response =
     \<lparr>Id_hdr = 9, Truncated = False, Compress = False,
      Question = ['';example.org. IN A''], Answer = []\<rparr>"

definition ex_no_question :: "string Msg" where
  "ex_no_question =
     \<lparr>Id_hdr = 7, Truncated = False, Compress = False, Question = [], Answer = []\<rparr>"

definition ex_cached :: "string lru_store Cache" where
  "ex_cached =
     \<lparr>c_arc = (2, [('';example.org. IN A'',
                     \<lparr>cv_m = \<lparr>Id_hdr = 9, Truncated = False, Compress = True,
                               Question = ['';example.org. IN A''],
                               Answer = [\<lparr>Ttl = 300, rdata = ''192.0.2.1''\<rparr>]\<rparr>,
                      cv_exp = 300000000000\<rparr>)])\<rparr>"

definition ex_clock :: "time \<Rightarrow> nat \<Rightarrow> time" where
  "ex_clock t n = t"

definition ex_dial :: "string \<Rightarrow> Config \<Rightarrow> AddrError + string \<times> Config" where
  "ex_dial addr cfg = (if addr = ''192.0.2.1:853'' then Inl DialFailed else Inr (addr, cfg))"

text \<open>A cache for the server that records the pairs put into it.\<close>

definition ex_newCache :: "int \<Rightarrow> bool \<Rightarrow> (string Msg \<times> string Msg) list option" where
  "ex_newCache sz evictMetrics = Some []"

definition ex_cput ::
  "(string Msg \<times> string Msg) list \<Rightarrow> string Msg \<Rightarrow> string Msg \<Rightarrow> (string Msg \<times> string Msg) list" where
  "ex_cput ch q m = (q, m) # ch"

definition ex_server ::
  "(string, (string Msg \<times> string Msg) list, AddrError, string \<times> Config) Server" where
  "ex_server =
     \<lparr>cache = [],
      pools = [''one.one.one.one:853@1.1.1.1'', ''dns.google:853@8.8.8.8''],
      rq = [],
      dial = ex_dial,
      currentTime = zero_Time,
      startTime = zero_Time\<rparr>"

text \<open>An instant of the year 2026, counted from the zero value of \<open>time.Time\<close>.\<close>

definition ex_start :: time where
  "ex_start = 63900000000000000000"

text \<open>
  A network on which every exchange of the first fan-out fails and the second fan-out
  receives a response first.
\<close>

definition ex_arrival :: "nat \<Rightarrow> string Msg option list" where
  "ex_arrival i =
     (if i = 0 then [None, None, None, None] else [Some (ex_response 300), None, None])"

definition ex_world :: "string Msg world" where
  "ex_world = \<lparr>arrival = ex_arrival, fanouts = 0\<rparr>"

text \<open>What the pool and the connection deliver: a failed \<open>p.get()\<close>, and a response.\<close>

definition ex_io_fail :: "string Msg exchange_io" where
  "ex_io_fail = \<lparr>io_get = Some GetFailed, io_write = None, io_read = Inr None\<rparr>"

definition ex_io_ok :: "string Msg exchange_io" where
  "ex_io_ok = \<lparr>io_get = None, io_write = None, io_read = Inr (Some (ex_response 300))\<rparr>"

text \<open>
  The two-store cache of capacity 2, three insertions without an installed timer, and the
  cache they lead to.
\<close>

definition ex_sp_cache :: "nat sp_Cache" where
  "ex_sp_cache =
     \<lparr>lru = newStore 1 byTime, mfa = newStore 1 byAccesses, sp_t = 0, capacity = 2\<rparr>"

definition ex_puts :: "(string \<times> nat option \<times> uint option) list" where
  "ex_puts = [(''a'', Some 1, None), (''b'', Some 2, None), (''c'', Some 3, None)]"

definition ex_sp_cache_after :: "nat sp_Cache" where
  "ex_sp_cache_after =
     \<lparr>lru = \<lparr>pq = [\<lparr>item_key = ''c'', item_v = Some 3, item_a = 1, item_t = 3\<rparr>],
             store_cap = 1, by_policy = byTime\<rparr>,
      mfa = \<lparr>pq = [\<lparr>item_key = ''b'', item_v = Some 2, item_a = 1, item_t = 3\<rparr>],
             store_cap = 1, by_policy = byAccesses\<rparr>,
      sp_t = 3, capacity = 2\<rparr>"

section \<open>The first question record\<close>

text \<open>The fingerprint, and the operations on a message that carries a question.\<close>

lemma key_Nil: "Question k = [] \<Longrightarrow> key L k = Inl IndexOutOfRange"
  by (simp add: key_def)

lemma key_Cons: "Question k \<noteq> [] \<Longrightarrow> key L k = Inr (QString L (hd (Question k)))"
  by (cases "Question k") (simp_all add: key_def)

lemma Get_defined: "Question mk \<noteq> [] \<Longrightarrow> \<not> isl (Get L c mk clk)"
  by (auto simp: Get_def key_Cons Let_def split: prod.splits option.splits)

lemma Put_defined: "Question k \<noteq> [] \<Longrightarrow> \<not> isl (Put L c k v t0)"
  by (auto simp: Put_def key_Cons Let_def)

lemma ServeDNS_defined: "Question q \<noteq> [] \<Longrightarrow> \<not> isl (ServeDNS cget cput s w q)"
  by (cases "Question q") (auto simp: ServeDNS_def split: prod.splits outcome.splits option.splits)

text \<open>
  Claim C10. The fingerprint reads the first question record without a check: for a
  message with an empty question list \<open>key\<close>, \<open>Get\<close>, \<open>Put\<close> and \<open>ServeDNS\<close> end in an
  out-of-range panic, and for a message with at least one question record none of them
  fails. The public interface is defined exactly on the messages that carry a question.
\<close>

theorem empty_question_out_of_range:
  "(key L mk = Inl IndexOutOfRange \<longleftrightarrow> Question mk = []) \<and>
   (isl (key L mk) \<longleftrightarrow> Question mk = []) \<and>
   (Get L c mk clk = Inl IndexOutOfRange \<longleftrightarrow> Question mk = []) \<and>
   (isl (Get L c mk clk) \<longleftrightarrow> Question mk = []) \<and>
   (Put L c mk v t0 = Inl IndexOutOfRange \<longleftrightarrow> Question mk = []) \<and>
   (isl (Put L c mk v t0) \<longleftrightarrow> Question mk = []) \<and>
   (ServeDNS cget cput s w mk = Inl IndexOutOfRange \<longleftrightarrow> Question mk = []) \<and>
   (isl (ServeDNS cget cput s w mk) \<longleftrightarrow> Question mk = [])"
proof (cases "Question mk = []")
  case True
  then show ?thesis
    by (simp add: key_Nil Get_def Put_def ServeDNS_def)
next
  case False
  have "\<not> isl (key L mk)" using False by (simp add: key_Cons)
  moreover note Get_defined [OF False, of L c clk] Put_defined [OF False, of L c v t0]
    ServeDNS_defined [OF False, of cget cput s w]
  ultimately show ?thesis using False
    by (auto simp: isl_def)
qed

text \<open>
  The theorem at a message without a question (the three panics) and at a message with
  one (a defined result).
\<close>

theorem empty_question_out_of_range_witness:
  "key lru_library ex_no_question = Inl IndexOutOfRange \<and>
   Get lru_library (New lru_library 2) ex_no_question (ex_clock 0) = Inl IndexOutOfRange \<and>
   Put lru_library (New lru_library 2) ex_no_question (ex_response 300) 0 = Inl IndexOutOfRange \<and>
   \<not> isl (Get lru_library (New lru_library 2) ex_query (ex_clock 0))"
proof -
  have a: "Question ex_no_question = []" by (simp add: ex_no_question_def)
  have b: "Question ex_query \<noteq> []" by (simp add: ex_query_def)
  show ?thesis
    using empty_question_out_of_range [of lru_library ex_no_question "New lru_library 2" "ex_clock 0" "ex_response 300" 0]
      empty_question_out_of_range [of lru_library ex_query "New lru_library 2" "ex_clock 0" "ex_response 300" 0] a b
    by blast
qed



section \<open>The stored expiration\<close>

text \<open>
  The loop of \<open>Put\<close> computes the smaller of its start value and the insertion time
  plus the least TTL.
\<close>

lemma Second_pos: "0 < Second"
  by (simp add: Second_def)

lemma min_scale: "min (t0 + x * Second) (t0 + y * Second) = t0 + min x y * Second"
  using Second_pos by (simp add: min_def)

lemma min_expiration_Min:
  "as \<noteq> [] \<Longrightarrow>
   min_expiration t0 as m = min m (t0 + Min ((\<lambda>a. uint (Ttl a)) ` set as) * Second)"
proof (induction as arbitrary: m)
  case Nil
  then show ?case by simp
next
  case (Cons a as)
  show ?case
  proof (cases "as = []")
    case True
    then show ?thesis
      by (simp add: Add_def Before_def Let_def min_def)
  next
    case False
    have step: "min_expiration t0 (a # as) m = min_expiration t0 as (min m (t0 + uint (Ttl a) * Second))"
      by (simp add: Add_def Before_def Let_def min_def)
    have "Min ((\<lambda>a. uint (Ttl a)) ` set (a # as)) = min (uint (Ttl a)) (Min ((\<lambda>a. uint (Ttl a)) ` set as))"
      using False by simp
    then show ?thesis
      using Cons.IH [OF False, of "min m (t0 + uint (Ttl a) * Second)"] step
      by (simp add: min_scale [symmetric] min.assoc)
  qed
qed

text \<open>The expiration instant that \<open>Put\<close> stores for a response with answers.\<close>

lemma Put_stores:
  assumes "Answer v \<noteq> []" and "Question k \<noteq> []"
  shows "Put L c k v t0 =
           Inr (c\<lparr>c_arc := ARC_Put L (c_arc c) (QString L (hd (Question k)))
                  \<lparr>cv_m = v\<lparr>Truncated := False, Compress := True\<rparr>,
                   cv_exp = t0 + min maxTTL (Min ((\<lambda>a. uint (Ttl a)) ` set (Answer v)) * Second)\<rparr>\<rparr>)"
proof -
  have "min_expiration t0 (Answer v) (t0 + maxTTL)
          = t0 + min maxTTL (Min ((\<lambda>a. uint (Ttl a)) ` set (Answer v)) * Second)"
    using min_expiration_Min [OF assms(1), of t0 "t0 + maxTTL"] by (simp add: min_def)
  then show ?thesis
    using assms by (simp add: Put_def Let_def Add_def key_Cons)
qed

text \<open>
  Claim C3. For a response with at least one answer record (and a query with a question
  record) \<open>Put\<close> hands the store the canonicalised response together with the
  expiration instant: the insertion time plus the minimum TTL of the answers, capped at
  24 hours, that is, plus the smaller of 24 hours and the minimum TTL. It never exceeds
  the insertion time plus 24 hours.
\<close>

theorem Put_expiration_capped:
  assumes "Answer v \<noteq> []" and "Question k \<noteq> []"
  shows "Put L c k v t0 =
           Inr (c\<lparr>c_arc := ARC_Put L (c_arc c) (QString L (hd (Question k)))
                  \<lparr>cv_m = v\<lparr>Truncated := False, Compress := True\<rparr>,
                   cv_exp = Add t0 (min maxTTL (Min ((\<lambda>a. uint (Ttl a)) ` set (Answer v)) * Second))\<rparr>\<rparr>) \<and>
         Add t0 (min maxTTL (Min ((\<lambda>a. uint (Ttl a)) ` set (Answer v)) * Second)) \<le> Add t0 maxTTL"
  using Put_stores [OF assms, of L c t0] by (simp add: Add_def)

text \<open>
  The cap at work: with a single answer of TTL 86401 inserted at instant 0 the stored
  expiration is 24 hours, one second less than the TTL.
\<close>

lemma Put_expiration_at_cap:
  "Put lru_library (New lru_library 2) ex_query (ex_response 86401) 0 =
     Inr \<lparr>c_arc = (2, [('';example.org. IN A'',
                         \<lparr>cv_m = (ex_response 86401)\<lparr>Truncated := False, Compress := True\<rparr>,
                          cv_exp = Add 0 maxTTL\<rparr>)])\<rparr> \<and>
   Add 0 maxTTL \<noteq> Add 0 (uint (86401 :: 32 word) * Second)"
  by (simp add: Put_def Let_def key_def ex_query_def ex_response_def New_def lru_library_def
      lru_Put_def Add_def Before_def maxTTL_def Hour_def Second_def)

text \<open>The claim at a response with one answer of TTL 300, inserted at instant 5.\<close>

theorem Put_expiration_capped_witness:
  "Answer (ex_response 300) \<noteq> [] \<and> Question ex_query \<noteq> [] \<and>
   Put lru_library (New lru_library 2) ex_query (ex_response 300) 5 =
      Inr \<lparr>c_arc = (2, [('';example.org. IN A'',
                          \<lparr>cv_m = (ex_response 300)\<lparr>Truncated := False, Compress := True\<rparr>,
                           cv_exp = 300000000005\<rparr>)])\<rparr>"
proof -
  have a: "Answer (ex_response 300) \<noteq> []" by (simp add: ex_response_def)
  have q: "Question ex_query \<noteq> []" by (simp add: ex_query_def)
  show ?thesis
    using Put_expiration_capped [OF a q, of lru_library "New lru_library 2" 5] a q
    by (simp add: ex_query_def ex_response_def New_def lru_library_def lru_Put_def Add_def
        maxTTL_def Hour_def Second_def)
qed


section \<open>Lookups after an insertion\<close>

text \<open>The TTL rewriting keeps the records and changes the TTL of each.\<close>

lemma rewrite_ttl_length: "length (rewrite_ttl L clk exp j as) = length as"
  by (induction as arbitrary: j) simp_all

lemma rewrite_ttl_nth:
  "i < length as \<Longrightarrow>
   rewrite_ttl L clk exp j as ! i = (as ! i)\<lparr>Ttl := ttl_left L (Sub (clk (Suc (j + i))) exp)\<rparr>"
proof (induction as arbitrary: i j)
  case Nil
  then show ?case by simp
next
  case (Cons a as)
  then show ?case by (cases i) simp_all
qed

lemma maxTTL_val: "maxTTL = 86400 * Second"
  by (simp add: maxTTL_def Hour_def)

text \<open>The whole seconds left, for a clock reading between insertion and expiration.\<close>

lemma ttl_left_window:
  assumes "0 \<le> exp - t" and "exp - t \<le> maxTTL"
  shows "uint (ttl_left L (Sub t exp)) = (exp - t) div Second"
proof -
  have sub: "Sub t exp = t - exp"
    using assms by (simp add: Sub_def minDuration_def maxDuration_def maxTTL_val Second_def)
  have "(exp - t) div Second \<le> 86400"
    using assms(2) by (simp add: maxTTL_val Second_def)
  moreover have "0 \<le> (exp - t) div Second"
    using assms(1) by (simp add: Second_def)
  ultimately have "uint (word_of_int ((exp - t) div Second) :: 32 word) = (exp - t) div Second"
    by (simp add: uint_word_of_int take_bit_int_eq_self)
  then show ?thesis
    using assms sub by (simp add: ttl_left_def Let_def maxTTL_val Second_def)
qed

text \<open>\<open>Get\<close> on a store that answers with a stored value.\<close>

lemma Get_hit:
  assumes "Question q \<noteq> []"
    and "ARC_Get L (c_arc c) (QString L (hd (Question q))) = ((Some cv, True), a')"
  shows "Get L c q clk =
           Inr (if Before (cv_exp cv) (clk 0)
                then (Some ((cv_m cv)\<lparr>Id_hdr := Id_hdr q,
                         Answer := map (\<lambda>a. a\<lparr>Ttl := 60\<rparr>) (Answer (cv_m cv))\<rparr>), False)
                else (Some ((cv_m cv)\<lparr>Id_hdr := Id_hdr q,
                         Answer := rewrite_ttl L clk (cv_exp cv) 0 (Answer (cv_m cv))\<rparr>), True),
              c\<lparr>c_arc := a'\<rparr>)"
  using assms by (simp add: Get_def key_Cons Let_def)

lemma Get_miss:
  assumes "Question q \<noteq> []"
    and "ARC_Get L (c_arc c) (QString L (hd (Question q))) = ((r, ok), a')"
    and "r = None \<or> \<not> ok"
  shows "Get L c q clk = Inr ((None, False), c\<lparr>c_arc := a'\<rparr>)"
  using assms by (auto simp: Get_def key_Cons Let_def)


text \<open>A \<open>Put\<close> with answers followed by a \<open>Get\<close> of the same query, on a store that answers a \<open>Get\<close> with what the preceding \<open>Put\<close> stored.\<close>

lemma Put_Get:
  assumes q: "Question q \<noteq> []" and a: "Answer v \<noteq> []"
    and law: "\<And>x. fst (ARC_Get L (ARC_Put L (c_arc c) (QString L (hd (Question q))) x)
                        (QString L (hd (Question q)))) = (Some x, True)"
  shows "\<exists>c1 c2. Put L c q v t0 = Inr c1 \<and>
           Get L c1 q clk =
             Inr (if Before (t0 + min maxTTL (Min ((\<lambda>a. uint (Ttl a)) ` set (Answer v)) * Second)) (clk 0)
                  then (Some (v\<lparr>Id_hdr := Id_hdr q, Truncated := False, Compress := True,
                           Answer := map (\<lambda>a. a\<lparr>Ttl := 60\<rparr>) (Answer v)\<rparr>), False)
                  else (Some (v\<lparr>Id_hdr := Id_hdr q, Truncated := False, Compress := True,
                           Answer := rewrite_ttl L clk
                             (t0 + min maxTTL (Min ((\<lambda>a. uint (Ttl a)) ` set (Answer v)) * Second)) 0 (Answer v)\<rparr>), True),
                  c2)"
proof -
  define k where "k = QString L (hd (Question q))"
  define e where "e = t0 + min maxTTL (Min ((\<lambda>a. uint (Ttl a)) ` set (Answer v)) * Second)"
  define cv where "cv = \<lparr>cv_m = v\<lparr>Truncated := False, Compress := True\<rparr>, cv_exp = e\<rparr>"
  define c1 where "c1 = c\<lparr>c_arc := ARC_Put L (c_arc c) k cv\<rparr>"
  have put: "Put L c q v t0 = Inr c1"
    using Put_stores [OF a q, of L c t0] by (simp add: c1_def cv_def k_def e_def)
  obtain a' where g: "ARC_Get L (c_arc c1) k = ((Some cv, True), a')"
    using law [of cv] by (cases "ARC_Get L (c_arc c1) k") (simp add: c1_def k_def)
  have "Get L c1 q clk =
           Inr (if Before (cv_exp cv) (clk 0)
                then (Some ((cv_m cv)\<lparr>Id_hdr := Id_hdr q,
                         Answer := map (\<lambda>a. a\<lparr>Ttl := 60\<rparr>) (Answer (cv_m cv))\<rparr>), False)
                else (Some ((cv_m cv)\<lparr>Id_hdr := Id_hdr q,
                         Answer := rewrite_ttl L clk (cv_exp cv) 0 (Answer (cv_m cv))\<rparr>), True),
              c1\<lparr>c_arc := a'\<rparr>)"
    using Get_hit [OF q, of L c1 cv a' clk] g by (simp add: k_def)
  then show ?thesis
    using put by (simp add: cv_def e_def)
qed

text \<open>
  Claim C1. A query \<open>q\<close> (with a question record) and a response \<open>v\<close> with at least one
  answer record and a minimum answer TTL above zero: \<open>Put\<close> of \<open>q\<close> and \<open>v\<close> at instant
  \<open>t0\<close> followed immediately by \<open>Get\<close> of \<open>q\<close> (its expiry test reads the clock less
  than a second after \<open>t0\<close>) returns a response with the fresh flag set, and the
  transaction identifier of that response is the one of \<open>q\<close>. The store is any store
  that answers a \<open>Get\<close> with what the preceding \<open>Put\<close> stored under this key.
\<close>

theorem put_then_get_fresh:
  assumes q: "Question q \<noteq> []" and a: "Answer v \<noteq> []"
    and ttl: "0 < Min ((\<lambda>a. uint (Ttl a)) ` set (Answer v))"
    and law: "\<And>x. fst (ARC_Get L (ARC_Put L (c_arc c) (QString L (hd (Question q))) x)
                        (QString L (hd (Question q)))) = (Some x, True)"
    and imm: "clk 0 < t0 + Second"
  shows "\<exists>c1 m c2. Put L c q v t0 = Inr c1 \<and> Get L c1 q clk = Inr ((Some m, True), c2) \<and>
           Id_hdr m = Id_hdr q"
proof -
  have "Second \<le> Min ((\<lambda>a. uint (Ttl a)) ` set (Answer v)) * Second"
    using ttl Second_pos by simp
  then have "\<not> Before (t0 + min maxTTL (Min ((\<lambda>a. uint (Ttl a)) ` set (Answer v)) * Second)) (clk 0)"
    using imm by (simp add: Before_def maxTTL_val min_def Second_def)
  then show ?thesis
    using Put_Get [OF q a law, of t0 clk] by auto
qed


text \<open>
  The claim with the least-recently-used store of capacity 2: a response of TTL 300
  inserted at instant 0 and looked up half a second later.
\<close>

theorem put_then_get_fresh_witness:
  "Put lru_library (New lru_library 2) ex_query (ex_response 300) 0 = Inr ex_cached \<and>
   Get lru_library ex_cached ex_query (ex_clock 500000000) =
     Inr ((Some \<lparr>Id_hdr = 7, Truncated = False, Compress = True,
                  Question = ['';example.org. IN A''],
                  Answer = [\<lparr>Ttl = 299, rdata = ''192.0.2.1''\<rparr>]\<rparr>, True), ex_cached)"
proof -
  have q: "Question ex_query \<noteq> []" by (simp add: ex_query_def)
  have a: "Answer (ex_response 300) \<noteq> []" by (simp add: ex_response_def)
  have ttl: "0 < Min ((\<lambda>a. uint (Ttl a)) ` set (Answer (ex_response 300)))"
    by (simp add: ex_response_def)
  have law: "\<And>x. fst (ARC_Get lru_library (ARC_Put lru_library (c_arc (New lru_library 2))
                 (QString lru_library (hd (Question ex_query))) x)
                 (QString lru_library (hd (Question ex_query)))) = (Some x, True)"
    by (simp add: New_def lru_library_def lru_Get_def lru_Put_def)
  have imm: "ex_clock 500000000 0 < 0 + Second" by (simp add: ex_clock_def Second_def)
  have "\<exists>c1 m c2. Put lru_library (New lru_library 2) ex_query (ex_response 300) 0 = Inr c1 \<and>
          Get lru_library c1 ex_query (ex_clock 500000000) = Inr ((Some m, True), c2) \<and>
          Id_hdr m = Id_hdr ex_query"
    using put_then_get_fresh [where q = ex_query and v = "ex_response 300" and L = lru_library
        and c = "New lru_library 2" and clk = "ex_clock 500000000" and ?t0.0 = 0, OF q a ttl law imm]
    by simp
  moreover have "Put lru_library (New lru_library 2) ex_query (ex_response 300) 0 = Inr ex_cached"
    by (simp add: Put_def Let_def key_def ex_query_def ex_response_def New_def lru_library_def
        lru_Put_def Add_def Before_def maxTTL_def Hour_def Second_def ex_cached_def)
  moreover have "Get lru_library ex_cached ex_query (ex_clock 500000000) =
     Inr ((Some \<lparr>Id_hdr = 7, Truncated = False, Compress = True,
                  Question = ['';example.org. IN A''],
                  Answer = [\<lparr>Ttl = 299, rdata = ''192.0.2.1''\<rparr>]\<rparr>, True), ex_cached)"
    by (simp add: Get_def Let_def key_def ex_query_def ex_response_def lru_library_def
        lru_Get_def Before_def Sub_def minDuration_def maxDuration_def ttl_left_def
        Second_def ex_cached_def ex_clock_def)
  ultimately show ?thesis by simp
qed


section \<open>The TTLs of a returned response\<close>

text \<open>
  Claim C4, as amended. An entry inserted at \<open>t0\<close> expires at \<open>exp\<close>. A \<open>Get\<close> whose
  expiry test reads the clock at or before \<open>exp\<close>, and whose further readings (one per
  answer record) lie between \<open>t0\<close> and \<open>exp\<close>, returns a clone with the fresh flag in
  which every answer TTL is the number of whole seconds left until \<open>exp\<close>: it is not
  negative, it is zero once less than a second is left, and it is at most the original
  minimum TTL. A \<open>Get\<close> whose expiry test reads the clock after \<open>exp\<close> returns a clone
  without the fresh flag in which every answer TTL is 60.
\<close>

theorem Get_ttls:
  assumes q: "Question q \<noteq> []" and a: "Answer v \<noteq> []"
    and law: "\<And>x. fst (ARC_Get L (ARC_Put L (c_arc c) (QString L (hd (Question q))) x)
                        (QString L (hd (Question q)))) = (Some x, True)"
    and e: "exp = Add t0 (min maxTTL (Min ((\<lambda>a. uint (Ttl a)) ` set (Answer v)) * Second))"
  shows "(clk 0 \<le> exp \<and> (\<forall>i<length (Answer v). t0 \<le> clk (Suc i) \<and> clk (Suc i) \<le> exp) \<longrightarrow>
            (\<exists>c1 m c2. Put L c q v t0 = Inr c1 \<and> Get L c1 q clk = Inr ((Some m, True), c2) \<and>
               length (Answer m) = length (Answer v) \<and>
               (\<forall>i<length (Answer v).
                  uint (Ttl (Answer m ! i)) = (exp - clk (Suc i)) div Second \<and>
                  0 \<le> uint (Ttl (Answer m ! i)) \<and>
                  uint (Ttl (Answer m ! i)) \<le> Min ((\<lambda>a. uint (Ttl a)) ` set (Answer v))))) \<and>
         (exp < clk 0 \<longrightarrow>
            (\<exists>c1 m c2. Put L c q v t0 = Inr c1 \<and> Get L c1 q clk = Inr ((Some m, False), c2) \<and>
               (\<forall>a\<in>set (Answer m). Ttl a = 60)))"
proof (intro conjI impI)
  assume fresh: "clk 0 \<le> exp \<and> (\<forall>i<length (Answer v). t0 \<le> clk (Suc i) \<and> clk (Suc i) \<le> exp)"
  define m where "m = v\<lparr>Id_hdr := Id_hdr q, Truncated := False, Compress := True,
                          Answer := rewrite_ttl L clk exp 0 (Answer v)\<rparr>"
  have nb: "\<not> Before exp (clk 0)" using fresh by (simp add: Before_def)
  obtain c1 c2 where pg: "Put L c q v t0 = Inr c1" "Get L c1 q clk = Inr ((Some m, True), c2)"
    using Put_Get [OF q a law, of t0 clk] nb e by (auto simp: Add_def m_def)
  have len: "length (Answer m) = length (Answer v)"
    by (simp add: m_def rewrite_ttl_length)
  have ttls: "uint (Ttl (Answer m ! i)) = (exp - clk (Suc i)) div Second \<and>
              0 \<le> uint (Ttl (Answer m ! i)) \<and>
              uint (Ttl (Answer m ! i)) \<le> Min ((\<lambda>a. uint (Ttl a)) ` set (Answer v))"
    if i: "i < length (Answer v)" for i
  proof -
    have w: "0 \<le> exp - clk (Suc i)" "exp - clk (Suc i) \<le> exp - t0"
      using fresh i by auto
    have cap: "exp - t0 \<le> maxTTL" "exp - t0 \<le> Min ((\<lambda>a. uint (Ttl a)) ` set (Answer v)) * Second"
      using e by (simp_all add: Add_def)
    have "uint (Ttl (Answer m ! i)) = uint (ttl_left L (Sub (clk (Suc i)) exp))"
      using i by (simp add: m_def rewrite_ttl_nth)
    also have "\<dots> = (exp - clk (Suc i)) div Second"
      using w cap by (intro ttl_left_window) auto
    finally have eq: "uint (Ttl (Answer m ! i)) = (exp - clk (Suc i)) div Second" .
    have "(exp - clk (Suc i)) div Second \<le> (Min ((\<lambda>a. uint (Ttl a)) ` set (Answer v)) * Second) div Second"
      using w cap by (intro zdiv_mono1) (auto simp: Second_pos)
    then have "(exp - clk (Suc i)) div Second \<le> Min ((\<lambda>a. uint (Ttl a)) ` set (Answer v))"
      using Second_pos by simp
    moreover have "0 \<le> (exp - clk (Suc i)) div Second"
      using w(1) Second_pos by (simp add: pos_imp_zdiv_nonneg_iff)
    ultimately show ?thesis using eq by simp
  qed
  show "\<exists>c1 m c2. Put L c q v t0 = Inr c1 \<and> Get L c1 q clk = Inr ((Some m, True), c2) \<and>
               length (Answer m) = length (Answer v) \<and>
               (\<forall>i<length (Answer v).
                  uint (Ttl (Answer m ! i)) = (exp - clk (Suc i)) div Second \<and>
                  0 \<le> uint (Ttl (Answer m ! i)) \<and>
                  uint (Ttl (Answer m ! i)) \<le> Min ((\<lambda>a. uint (Ttl a)) ` set (Answer v)))"
    using pg len ttls by blast
next
  assume stale: "exp < clk 0"
  then have "Before exp (clk 0)" by (simp add: Before_def)
  then show "\<exists>c1 m c2. Put L c q v t0 = Inr c1 \<and> Get L c1 q clk = Inr ((Some m, False), c2) \<and>
               (\<forall>a\<in>set (Answer m). Ttl a = 60)"
    using Put_Get [OF q a law, of t0 clk] e by (auto simp: Add_def)
qed

text \<open>
  The claim as stated fails on "strictly positive": a response of TTL 1 inserted at
  instant 0 and looked up half a second later is a fresh hit whose answer TTL is 0.
\<close>

theorem Get_fresh_ttl_zero:
  "Put lru_library (New lru_library 2) ex_query (ex_response 1) 0 =
     Inr \<lparr>c_arc = (2, [('';example.org. IN A'',
                         \<lparr>cv_m = (ex_response 1)\<lparr>Truncated := False, Compress := True\<rparr>,
                          cv_exp = 1000000000\<rparr>)])\<rparr> \<and>
   Get lru_library
     \<lparr>c_arc = (2, [('';example.org. IN A'',
                     \<lparr>cv_m = (ex_response 1)\<lparr>Truncated := False, Compress := True\<rparr>,
                      cv_exp = 1000000000\<rparr>)])\<rparr>
     ex_query (ex_clock 500000000) =
     Inr ((Some \<lparr>Id_hdr = 7, Truncated = False, Compress = True,
                  Question = ['';example.org. IN A''],
                  Answer = [\<lparr>Ttl = 0, rdata = ''192.0.2.1''\<rparr>]\<rparr>, True),
          \<lparr>c_arc = (2, [('';example.org. IN A'',
                         \<lparr>cv_m = (ex_response 1)\<lparr>Truncated := False, Compress := True\<rparr>,
                          cv_exp = 1000000000\<rparr>)])\<rparr>)"
  by (simp add: Put_def Get_def Let_def key_def ex_query_def ex_response_def New_def
      lru_library_def lru_Put_def lru_Get_def Add_def Before_def maxTTL_def Hour_def Second_def
      Sub_def minDuration_def maxDuration_def ttl_left_def ex_clock_def)


text \<open>
  The amended claim at a response of TTL 300 inserted at instant 0: looked up after half
  a second (fresh, 299 seconds left) and after 301 seconds (stale, TTL 60).
\<close>

theorem Get_ttls_witness:
  "(\<exists>c1 m c2. Put lru_library (New lru_library 2) ex_query (ex_response 300) 0 = Inr c1 \<and>
       Get lru_library c1 ex_query (ex_clock 500000000) = Inr ((Some m, True), c2) \<and>
       uint (Ttl (Answer m ! 0)) = 299) \<and>
   (\<exists>c1 m c2. Put lru_library (New lru_library 2) ex_query (ex_response 300) 0 = Inr c1 \<and>
       Get lru_library c1 ex_query (ex_clock 301000000000) = Inr ((Some m, False), c2) \<and>
       (\<forall>a\<in>set (Answer m). Ttl a = 60))"
proof -
  have q: "Question ex_query \<noteq> []" by (simp add: ex_query_def)
  have a: "Answer (ex_response 300) \<noteq> []" by (simp add: ex_response_def)
  have law: "\<And>x. fst (ARC_Get lru_library (ARC_Put lru_library (c_arc (New lru_library 2))
                 (QString lru_library (hd (Question ex_query))) x)
                 (QString lru_library (hd (Question ex_query)))) = (Some x, True)"
    by (simp add: New_def lru_library_def lru_Get_def lru_Put_def)
  have e: "(300000000000 :: int) =
             Add 0 (min maxTTL (Min ((\<lambda>a. uint (Ttl a)) ` set (Answer (ex_response 300))) * Second))"
    by (simp add: ex_response_def Add_def maxTTL_def Hour_def Second_def)
  have len: "length (Answer (ex_response 300)) = 1" by (simp add: ex_response_def)
  have fresh: "ex_clock 500000000 0 \<le> 300000000000 \<and>
               (\<forall>i<length (Answer (ex_response 300)).
                  0 \<le> ex_clock 500000000 (Suc i) \<and> ex_clock 500000000 (Suc i) \<le> 300000000000)"
    by (simp add: ex_clock_def)
  have stale: "300000000000 < ex_clock 301000000000 0" by (simp add: ex_clock_def)
  have d: "(300000000000 - ex_clock 500000000 (Suc 0)) div Second = 299"
    by (simp add: ex_clock_def Second_def)
  note t1 = Get_ttls [where q = ex_query and v = "ex_response 300" and L = lru_library
      and c = "New lru_library 2" and clk = "ex_clock 500000000" and ?t0.0 = 0 and exp = 300000000000,
      OF q a law e, THEN conjunct1, rule_format, OF fresh]
  note t2 = Get_ttls [where q = ex_query and v = "ex_response 300" and L = lru_library
      and c = "New lru_library 2" and clk = "ex_clock 301000000000" and ?t0.0 = 0 and exp = 300000000000,
      OF q a law e, THEN conjunct2, rule_format, OF stale]
  from t1 obtain c1 m c2 where
    "Put lru_library (New lru_library 2) ex_query (ex_response 300) 0 = Inr c1"
    "Get lru_library c1 ex_query (ex_clock 500000000) = Inr ((Some m, True), c2)"
    "\<forall>i<length (Answer (ex_response 300)).
        uint (Ttl (Answer m ! i)) = (300000000000 - ex_clock 500000000 (Suc i)) div Second \<and>
        0 \<le> uint (Ttl (Answer m ! i)) \<and>
        uint (Ttl (Answer m ! i)) \<le> Min ((\<lambda>a. uint (Ttl a)) ` set (Answer (ex_response 300)))"
    by blast
  then have "\<exists>c1 m c2. Put lru_library (New lru_library 2) ex_query (ex_response 300) 0 = Inr c1 \<and>
       Get lru_library c1 ex_query (ex_clock 500000000) = Inr ((Some m, True), c2) \<and>
       uint (Ttl (Answer m ! 0)) = 299"
    using len d by auto
  then show ?thesis using t2 by simp
qed

section \<open>Responses without answers\<close>

text \<open>
  Claim C5, as amended. For a query \<open>q\<close> with a question record and a response \<open>v\<close>
  without answer records, \<open>Put\<close> returns the cache as it was; and when the store holds
  no value under the fingerprint of \<open>q\<close>, the following \<open>Get\<close> of \<open>q\<close> is a miss.
\<close>

theorem Put_empty_answer:
  assumes e: "Answer v = []" and q: "Question q \<noteq> []"
  shows "Put L c q v t0 = Inr c \<and>
         (fst (fst (ARC_Get L (c_arc c) (QString L (hd (Question q))))) = None \<or>
          \<not> snd (fst (ARC_Get L (c_arc c) (QString L (hd (Question q))))) \<longrightarrow>
            (\<exists>c2. Get L c q clk = Inr ((None, False), c2)))"
proof (intro conjI impI)
  show "Put L c q v t0 = Inr c"
    using e q by (simp add: Put_def Let_def key_Cons)
next
  assume miss: "fst (fst (ARC_Get L (c_arc c) (QString L (hd (Question q))))) = None \<or>
          \<not> snd (fst (ARC_Get L (c_arc c) (QString L (hd (Question q)))))"
  obtain r ok a' where g: "ARC_Get L (c_arc c) (QString L (hd (Question q))) = ((r, ok), a')"
    by (metis prod.exhaust)
  then have "r = None \<or> \<not> ok" using miss by simp
  then show "\<exists>c2. Get L c q clk = Inr ((None, False), c2)"
    using Get_miss [OF q g] by blast
qed

text \<open>The amended claim on the empty store of capacity 2.\<close>

theorem Put_empty_answer_witness:
  "Put lru_library (New lru_library 2) ex_query ex_empty_response 0 = Inr (New lru_library 2) \<and>
   (\<exists>c2. Get lru_library (New lru_library 2) ex_query (ex_clock 1) = Inr ((None, False), c2))"
proof -
  have e: "Answer ex_empty_response = []" by (simp add: ex_empty_response_def)
  have q: "Question ex_query \<noteq> []" by (simp add: ex_query_def)
  have miss: "fst (fst (ARC_Get lru_library (c_arc (New lru_library 2))
                (QString lru_library (hd (Question ex_query))))) = None"
    by (simp add: New_def lru_library_def lru_Get_def)
  show ?thesis
    using Put_empty_answer [OF e q, of lru_library "New lru_library 2" 0 "ex_clock 1"] miss
    by simp
qed

text \<open>
  The claim as stated fails when the query is already cached: after a response of TTL
  300 was inserted, a \<open>Put\<close> of an answerless response leaves that entry in place and the
  following \<open>Get\<close> is a fresh hit, not a miss.
\<close>

theorem Put_empty_answer_then_hit:
  "Put lru_library (New lru_library 2) ex_query (ex_response 300) 0 = Inr ex_cached \<and>
   Put lru_library ex_cached ex_query ex_empty_response 1000000000 = Inr ex_cached \<and>
   Get lru_library ex_cached ex_query (ex_clock 1000000000) =
     Inr ((Some \<lparr>Id_hdr = 7, Truncated = False, Compress = True,
                  Question = ['';example.org. IN A''],
                  Answer = [\<lparr>Ttl = 299, rdata = ''192.0.2.1''\<rparr>]\<rparr>, True), ex_cached)"
  by (simp add: Put_def Get_def Let_def key_def ex_query_def ex_response_def ex_empty_response_def
      New_def lru_library_def lru_Put_def lru_Get_def Add_def Before_def maxTTL_def Hour_def
      Second_def Sub_def minDuration_def maxDuration_def ttl_left_def ex_clock_def ex_cached_def)


section \<open>Retries\<close>

text \<open>A fan-out whose channel receives at least one value per pool returns.\<close>

lemma collect_returns: "n \<le> length ch \<Longrightarrow> \<exists>r. collect n ch = Returned r"
proof (induction n ch rule: collect.induct)
  case (1 ch)
  then show ?case by simp
next
  case (2 n)
  then show ?case by simp
next
  case (3 n r ch)
  then show ?case by simp
qed

lemma retry_Some: "retry s c (Some r) w = (Returned (Some r), w)"
  by (simp add: retry.simps [of s c])

lemma retry_2: "retry s (Suc (Suc 0)) m w = (Returned m, w)"
  by (simp add: retry.simps [of s "Suc (Suc 0)"])

lemma retry_1: "retry s (Suc 0) None w = fan_out s w"
  by (simp add: retry.simps [of s "Suc 0"] retry_2 split: prod.splits outcome.splits)

lemma retry_0: "retry s 0 None w =
          (case fan_out s w of (Blocked, w') \<Rightarrow> (Blocked, w')
           | (Returned m', w') \<Rightarrow> retry s (Suc 0) m' w')"
  by (simp add: retry.simps [of s 0] split: prod.splits outcome.splits)

text \<open>
  Claim C6. When no fan-out waits forever (here: the channel of each of the next three
  fan-outs receives at least one value per pool), \<open>forwardMessageAndCacheResponse\<close>
  returns after \<open>n\<close> fan-outs with \<open>1 \<le> n \<le> 3\<close>: the first \<open>n - 1\<close> of them returned
  null and the last one returned the result \<open>m\<close>. If \<open>m\<close> is null then all three
  attempts were made and the server, its cache included, is unchanged; otherwise the only
  change is that the cache is the result of \<open>put\<close> of the query and \<open>m\<close>.
\<close>

theorem forward_and_cache_retries:
  assumes nb: "\<forall>i<3. length (pools s) \<le> length (arrival w (fanouts w + i))"
  shows "\<exists>m s' w' n.
           forwardMessageAndCacheResponse cput s w q = (Returned m, s', w') \<and>
           fanouts w' = fanouts w + n \<and> arrival w' = arrival w \<and> 1 \<le> n \<and> n \<le> 3 \<and>
           (\<forall>i<n - 1. forwardMessageAndGetResponse s (arrival w (fanouts w + i)) = Returned None) \<and>
           forwardMessageAndGetResponse s (arrival w (fanouts w + (n - 1))) = Returned m \<and>
           (case m of None \<Rightarrow> n = 3 \<and> s' = s
            | Some r \<Rightarrow> s' = s\<lparr>cache := cput (cache s) q r\<rparr>)"
proof -
  obtain m0 where o0: "forwardMessageAndGetResponse s (arrival w (fanouts w)) = Returned m0"
    using nb [rule_format, of 0] collect_returns [of "length (pools s)" "arrival w (fanouts w + 0)"]
    by (auto simp: forwardMessageAndGetResponse_def)
  obtain m1 where o1: "forwardMessageAndGetResponse s (arrival w (Suc (fanouts w))) = Returned m1"
    using nb [rule_format, of 1] collect_returns [of "length (pools s)" "arrival w (fanouts w + 1)"]
    by (auto simp: forwardMessageAndGetResponse_def)
  obtain m2 where o2: "forwardMessageAndGetResponse s (arrival w (Suc (Suc (fanouts w)))) = Returned m2"
    using nb [rule_format, of 2] collect_returns [of "length (pools s)" "arrival w (fanouts w + 2)"]
    by (auto simp: forwardMessageAndGetResponse_def)
  show ?thesis
  proof (cases m0)
    case (Some r)
    then have "forwardMessageAndCacheResponse cput s w q =
                 (Returned (Some r), s\<lparr>cache := cput (cache s) q r\<rparr>, w\<lparr>fanouts := Suc (fanouts w)\<rparr>)"
      using o0 by (simp add: forwardMessageAndCacheResponse_def fan_out_def retry_Some)
    then show ?thesis
      using o0 Some by (intro exI [of _ "Some r"] exI [of _ "s\<lparr>cache := cput (cache s) q r\<rparr>"]
          exI [of _ "w\<lparr>fanouts := Suc (fanouts w)\<rparr>"] exI [of _ 1]) simp
  next
    case None
    note m0 = None
    show ?thesis
    proof (cases m1)
      case (Some r)
      then have "forwardMessageAndCacheResponse cput s w q =
                 (Returned (Some r), s\<lparr>cache := cput (cache s) q r\<rparr>, w\<lparr>fanouts := Suc (Suc (fanouts w))\<rparr>)"
        using o0 o1 m0 by (simp add: forwardMessageAndCacheResponse_def fan_out_def retry_0 retry_Some)
      then show ?thesis
        using o0 o1 m0 Some by (intro exI [of _ "Some r"] exI [of _ "s\<lparr>cache := cput (cache s) q r\<rparr>"]
          exI [of _ "w\<lparr>fanouts := Suc (Suc (fanouts w))\<rparr>"] exI [of _ 2]) simp
    next
      case None
      note m1 = None
      have run: "forwardMessageAndCacheResponse cput s w q =
                 (case m2 of None \<Rightarrow> (Returned None, s, w\<lparr>fanouts := Suc (Suc (Suc (fanouts w)))\<rparr>)
                  | Some r \<Rightarrow> (Returned (Some r), s\<lparr>cache := cput (cache s) q r\<rparr>,
                               w\<lparr>fanouts := Suc (Suc (Suc (fanouts w)))\<rparr>))"
        using o0 o1 o2 m0 m1
        by (simp add: forwardMessageAndCacheResponse_def fan_out_def retry_0 retry_1 split: option.splits)
      have pre: "\<forall>i<2. forwardMessageAndGetResponse s (arrival w (fanouts w + i)) = Returned None"
        using o0 o1 m0 m1 by (auto simp: less_Suc_eq numeral_2_eq_2)
      show ?thesis
      proof (cases m2)
        case None
        then show ?thesis
          using run o2 pre by (intro exI [of _ None] exI [of _ s]
            exI [of _ "w\<lparr>fanouts := Suc (Suc (Suc (fanouts w)))\<rparr>"] exI [of _ 3]) simp
      next
        case (Some r)
        then show ?thesis
          using run o2 pre by (intro exI [of _ "Some r"] exI [of _ "s\<lparr>cache := cput (cache s) q r\<rparr>"]
            exI [of _ "w\<lparr>fanouts := Suc (Suc (Suc (fanouts w)))\<rparr>"] exI [of _ 3]) simp
      qed
    qed
  qed
qed


text \<open>
  The claim on a network whose first fan-out yields nothing and whose second yields a
  response: two fan-outs, the response is put into the cache and returned.
\<close>

theorem forward_and_cache_retries_witness:
  "forwardMessageAndCacheResponse ex_cput ex_server ex_world ex_query =
     (Returned (Some (ex_response 300)),
      ex_server\<lparr>cache := [(ex_query, ex_response 300)]\<rparr>,
      ex_world\<lparr>fanouts := 2\<rparr>)"
proof -
  have nb: "\<forall>i<3. length (pools ex_server) \<le> length (arrival ex_world (fanouts ex_world + i))"
    by (simp add: ex_server_def ex_world_def ex_arrival_def)
  have o0: "forwardMessageAndGetResponse ex_server (arrival ex_world (fanouts ex_world)) = Returned None"
    by (simp add: forwardMessageAndGetResponse_def ex_server_def ex_world_def ex_arrival_def
        numeral_2_eq_2)
  have o1: "forwardMessageAndGetResponse ex_server (arrival ex_world (fanouts ex_world + 1)) =
              Returned (Some (ex_response 300))"
    by (simp add: forwardMessageAndGetResponse_def ex_server_def ex_world_def ex_arrival_def
        numeral_2_eq_2)
  obtain m s' w' n where r:
    "forwardMessageAndCacheResponse ex_cput ex_server ex_world ex_query = (Returned m, s', w')"
    "fanouts w' = fanouts ex_world + n" "arrival w' = arrival ex_world" "1 \<le> n" "n \<le> 3"
    "\<forall>i<n - 1. forwardMessageAndGetResponse ex_server (arrival ex_world (fanouts ex_world + i)) = Returned None"
    "forwardMessageAndGetResponse ex_server (arrival ex_world (fanouts ex_world + (n - 1))) = Returned m"
    "case m of None \<Rightarrow> n = 3 \<and> s' = ex_server
     | Some r \<Rightarrow> s' = ex_server\<lparr>cache := ex_cput (cache ex_server) ex_query r\<rparr>"
    using forward_and_cache_retries [OF nb, of ex_cput ex_query] by blast
  have "n = 2"
  proof -
    have "n \<noteq> 1" using r(7,8) o0 by auto
    moreover have "n \<noteq> 3" using r(6) o1 by (auto simp: numeral_3_eq_3)
    ultimately show ?thesis using r(4,5) by arith
  qed
  then have "m = Some (ex_response 300)" using r(7) o1 by simp
  then have "s' = ex_server\<lparr>cache := [(ex_query, ex_response 300)]\<rparr>"
    using r(8) by (simp add: ex_cput_def ex_server_def)
  moreover have "w' = ex_world\<lparr>fanouts := 2\<rparr>"
    using r(2,3) \<open>n = 2\<close> by (simp add: ex_world_def)
  ultimately show ?thesis using r(1) \<open>m = Some (ex_response 300)\<close> by simp
qed

section \<open>The fan-out\<close>

text \<open>
  When enough values arrive, the collecting loop returns the first non-null value among
  the first \<open>n\<close> of them, and null when there is none.
\<close>

lemma collect_first:
  "n \<le> length ch \<Longrightarrow>
   collect n ch = Returned (case find (\<lambda>r. r \<noteq> None) (take n ch) of None \<Rightarrow> None | Some r \<Rightarrow> r)"
proof (induction n ch rule: collect.induct)
  case (1 ch)
  then show ?case by simp
next
  case (2 n)
  then show ?case by simp
next
  case (3 n r ch)
  then show ?case by simp
qed

lemma exchange_failed:
  "io_get io \<noteq> None \<Longrightarrow> \<exists>err. fst (exchangeMessages s io) = (None, Some err)"
  by (auto simp: exchangeMessages_def)

text \<open>
  Claim C7 fails on the code. With two pools, the exchange of the first failing and the
  exchange of the second delivering a response \<open>r\<close>, the task of the first pool sends
  null twice (\<open>resps <- nil\<close> is not followed by a return, so \<open>resps <- r\<close> sends the
  null \<open>r\<close> again). The order in which these two values arrive before the response is
  one of the possible arrival orders, and on it the collecting loop reads its two values,
  both null: the call returns null although a pool delivered a response.
\<close>

theorem fan_out_drops_response:
  assumes two: "length (pools s) = 2"
    and fails: "io_get io1 \<noteq> None"
    and answers: "fst (exchangeMessages s io2) = (Some r, None)"
  shows "task_sends (fst (exchangeMessages s io1)) = [None, None] \<and>
         task_sends (fst (exchangeMessages s io2)) = [Some r] \<and>
         [None, None, Some r] \<in>
           arrivals [task_sends (fst (exchangeMessages s io1)), task_sends (fst (exchangeMessages s io2))] \<and>
         forwardMessageAndGetResponse s [None, None, Some r] = Returned None"
proof -
  obtain err where "fst (exchangeMessages s io1) = (None, Some err)"
    using exchange_failed [OF fails] by blast
  then have s1: "task_sends (fst (exchangeMessages s io1)) = [None, None]"
    by (simp add: task_sends_def)
  have s2: "task_sends (fst (exchangeMessages s io2)) = [Some r]"
    using answers by (simp add: task_sends_def)
  have "forwardMessageAndGetResponse s [None, None, Some r] = Returned None"
    using two by (simp add: forwardMessageAndGetResponse_def numeral_2_eq_2)
  then show ?thesis using s1 s2 by simp
qed

text \<open>The failing input: the default server, a failed \<open>p.get()\<close> and an answered exchange.\<close>

theorem fan_out_drops_response_witness:
  "[None, None, Some (ex_response 300)] \<in>
     arrivals [task_sends (fst (exchangeMessages ex_server ex_io_fail)),
               task_sends (fst (exchangeMessages ex_server ex_io_ok))] \<and>
   forwardMessageAndGetResponse ex_server [None, None, Some (ex_response 300)] = Returned None"
proof -
  have two: "length (pools ex_server) = 2" by (simp add: ex_server_def)
  have fails: "io_get ex_io_fail \<noteq> None" by (simp add: ex_io_fail_def)
  have answers: "fst (exchangeMessages ex_server ex_io_ok) = (Some (ex_response 300), None)"
    by (simp add: exchangeMessages_def ex_io_ok_def)
  show ?thesis
    using fan_out_drops_response [OF two fails answers] by simp
qed

section \<open>The clock before the first tick\<close>

text \<open>After a tick \<open>now\<close> is the instant of the last tick.\<close>

lemma timer_last: "now (timer s (ts @ [t])) = t"
  by (induction ts arbitrary: s) (simp_all add: now_def)

text \<open>
  Claim C8 fails on the code. \<open>NewServer\<close> leaves \<open>currentTime\<close> at the zero value of
  \<open>time.Time\<close> and \<open>Run\<close> assigns only \<open>startTime\<close>: for a server started at an
  instant \<open>t\<close>, \<open>now\<close> before the first tick is the zero instant, not \<open>t\<close>.
\<close>

theorem clock_before_first_tick:
  assumes "NewServer newCache tls_Dial cacheSize evictMetrics upstreamServers = Some s"
    and "t \<noteq> zero_Time"
  shows "startTime (timer (Run s t) []) = t \<and>
         now (timer (Run s t) []) = zero_Time \<and>
         now (timer (Run s t) []) \<noteq> startTime (timer (Run s t) [])"
  using assms by (auto simp: NewServer_def Let_def now_def Run_def split: option.splits)

text \<open>
  The failing input: the default server started in 2026. Before the first tick the
  deadline that an exchange sets on its connection is ten seconds after the zero instant.
\<close>

theorem clock_before_first_tick_witness:
  "NewServer ex_newCache ex_dial 0 False [] = Some ex_server \<and>
   startTime (timer (Run ex_server ex_start) []) = ex_start \<and>
   now (timer (Run ex_server ex_start) []) = zero_Time \<and>
   fst (snd (exchangeMessages (timer (Run ex_server ex_start) []) ex_io_ok)) = Some 10000000000"
proof -
  have n: "NewServer ex_newCache ex_dial 0 False [] = Some ex_server"
    by (simp add: NewServer_def ex_newCache_def ex_server_def defaultCacheSize_def)
  have t: "ex_start \<noteq> zero_Time" by (simp add: ex_start_def zero_Time_def)
  have "now (timer (Run ex_server ex_start) []) = zero_Time"
    using clock_before_first_tick [OF n t] by simp
  then have "fst (snd (exchangeMessages (timer (Run ex_server ex_start) []) ex_io_ok)) = Some 10000000000"
    by (simp add: exchangeMessages_def ex_io_ok_def Add_def connectionTimeout_def Second_def
        zero_Time_def)
  then show ?thesis
    using clock_before_first_tick [OF n t] n by simp
qed


section \<open>Dialing an upstream\<close>

text \<open>Splitting an address with no separator, and with exactly one.\<close>

lemma Split_none: "sep \<notin> set b \<Longrightarrow> Split b sep = [b]"
  by (induction b) auto

lemma Split_one: "sep \<notin> set a \<Longrightarrow> sep \<notin> set b \<Longrightarrow> Split (a @ sep # b) sep = [a, b]"
  by (induction a) (auto simp: Split_none)

text \<open>The number of parts is one more than the number of separators.\<close>

lemma Split_length: "length (Split xs sep) = Suc (count_list xs sep)"
proof (induction xs)
  case Nil
  then show ?case by simp
next
  case (Cons x xs)
  then show ?case by (cases "Split xs sep") auto
qed

text \<open>
  Claim C9, as amended. For an upstream address with exactly one \<open>@\<close>, \<open>a@b\<close>: when
  \<open>a\<close> does not split into a server name and a port, the connector returns that error
  without dialing; otherwise it dials \<open>b\<close> joined with the port of \<open>a\<close>, with the server
  name of \<open>a\<close> in the TLS configuration and TLS 1.2 as the minimum version, and returns
  what the dial returns, so that a failed dial is the error of the connector. For an
  address with more than one \<open>@\<close> the connector dials the address as it is, with TLS
  1.2 as the minimum version and no server name, and returns what the dial returns.
\<close>

theorem connector_dials:
  "(CHR ''@'' \<notin> set a \<and> CHR ''@'' \<notin> set b \<longrightarrow>
      connector shp s (a @ ''@'' @ b) =
        (case shp a of
           Inl err \<Rightarrow> Inl err
         | Inr (servername, port) \<Rightarrow>
             dial s (b @ '':'' @ port) \<lparr>MinVersion = VersionTLS12, ServerName = servername\<rparr>)) \<and>
   (1 < count_list addr (CHR ''@'') \<longrightarrow>
      connector shp s addr = dial s addr \<lparr>MinVersion = VersionTLS12, ServerName = []\<rparr>)"
proof (intro conjI impI)
  assume "CHR ''@'' \<notin> set a \<and> CHR ''@'' \<notin> set b"
  then have "Split (a @ CHR ''@'' # b) (CHR ''@'') = [a, b]"
    using Split_one by blast
  then show "connector shp s (a @ ''@'' @ b) =
        (case shp a of
           Inl err \<Rightarrow> Inl err
         | Inr (servername, port) \<Rightarrow>
             dial s (b @ '':'' @ port) \<lparr>MinVersion = VersionTLS12, ServerName = servername\<rparr>)"
    by (simp add: connector_def Let_def split: sum.splits)
next
  assume "1 < count_list addr (CHR ''@'')"
  then have "length (Split addr (CHR ''@'')) \<noteq> 2"
    by (simp add: Split_length)
  then show "connector shp s addr = dial s addr \<lparr>MinVersion = VersionTLS12, ServerName = []\<rparr>"
    by (simp add: connector_def Let_def)
qed

text \<open>
  The amended claim at the first default upstream, at an upstream that cannot be
  reached, and at an address with two separators.
\<close>

theorem connector_dials_witness:
  "connector SplitHostPort ex_server ''one.one.one.one:853@1.1.1.1'' =
     Inr (''1.1.1.1:853'', \<lparr>MinVersion = VersionTLS12, ServerName = ''one.one.one.one''\<rparr>) \<and>
   connector SplitHostPort ex_server ''dns.example:853@192.0.2.1'' = Inl DialFailed \<and>
   connector SplitHostPort ex_server ''dns.example:853@192.0.2.1@192.0.2.2'' =
     Inr (''dns.example:853@192.0.2.1@192.0.2.2'', \<lparr>MinVersion = VersionTLS12, ServerName = []\<rparr>)"
proof -
  have a: "CHR ''@'' \<notin> set ''one.one.one.one:853'' \<and> CHR ''@'' \<notin> set ''1.1.1.1''" by simp
  have shp: "SplitHostPort ''one.one.one.one:853'' = Inr (''one.one.one.one'', ''853'')"
    by (simp add: SplitHostPort_def SplitHostPort_rest_def)
  have a': "CHR ''@'' \<notin> set ''dns.example:853'' \<and> CHR ''@'' \<notin> set ''192.0.2.1''" by simp
  have shp': "SplitHostPort ''dns.example:853'' = Inr (''dns.example'', ''853'')"
    by (simp add: SplitHostPort_def SplitHostPort_rest_def)
  have two: "1 < count_list ''dns.example:853@192.0.2.1@192.0.2.2'' (CHR ''@'')" by simp
  note one = connector_dials [where shp = SplitHostPort and s = ex_server, THEN conjunct1, rule_format]
  note many = connector_dials [where shp = SplitHostPort and s = ex_server, THEN conjunct2, rule_format]
  show ?thesis
    using one [OF a] shp one [OF a'] shp' many [OF two]
    by (simp add: ex_server_def ex_dial_def)
qed

text \<open>
  The claim as stated fails for other addresses that contain an \<open>@\<close>. With two
  separators the whole address is dialed and no server name is set; with a port after the
  \<open>@\<close> (the form \<open>servername:port@ip:port\<close>) the port of the first part is appended
  once more; without a port before the \<open>@\<close> nothing is dialed.
\<close>

theorem connector_other_addresses:
  "connector SplitHostPort ex_server ''dns.google:853@8.8.8.8@8.8.4.4'' =
     Inr (''dns.google:853@8.8.8.8@8.8.4.4'', \<lparr>MinVersion = VersionTLS12, ServerName = []\<rparr>) \<and>
   connector SplitHostPort ex_server ''dns.google:853@8.8.8.8:853'' =
     Inr (''8.8.8.8:853:853'', \<lparr>MinVersion = VersionTLS12, ServerName = ''dns.google''\<rparr>) \<and>
   connector SplitHostPort ex_server ''dns.google@8.8.8.8'' = Inl MissingPort"
  by (simp add: connector_def Let_def SplitHostPort_def SplitHostPort_rest_def ex_server_def
      ex_dial_def)


section \<open>The size of the two-store cache\<close>

text \<open>
  Each store stays within its capacity, which is not zero: \<open>update\<close> and \<open>reset\<close> keep
  the number of items, and \<open>put\<close> takes one item out of a full store before it adds one.
\<close>

lemma least_mem: "least p x xs \<in> set (x # xs)"
  by (induction xs arbitrary: x) (auto simp del: less_item.simps)

lemma peek_mem: "pq s \<noteq> [] \<Longrightarrow> \<exists>i. peek s = Inr i \<and> i \<in> set (pq s)"
  using least_mem by (cases "pq s") (auto simp: peek_def)

lemma store_update_size:
  "store_update s t k v = (b, s') \<Longrightarrow> length (pq s') = length (pq s) \<and> store_cap s' = store_cap s"
  by (auto simp: store_update_def split: option.splits)

lemma store_put_bounded:
  assumes "length (pq s) \<le> store_cap s" and "0 < store_cap s"
  shows "\<exists>ovf s'. store_put s t k v a = Inr (ovf, s') \<and> length (pq s') \<le> store_cap s' \<and>
           store_cap s' = store_cap s \<and> 0 < length (pq s')"
proof (cases "length (pq s) = store_cap s")
  case True
  then have "pq s \<noteq> []" using assms(2) by auto
  then obtain i where i: "peek s = Inr i" "i \<in> set (pq s)"
    using peek_mem by blast
  then have "length (remove1 i (pq s)) = length (pq s) - 1"
    by (simp add: length_remove1)
  then show ?thesis
    using True i assms by (simp add: store_put_def Let_def)
next
  case False
  then show ?thesis
    using assms by (simp add: store_put_def Let_def)
qed

lemma reset_size:
  "reset s t = (t', s') \<Longrightarrow> length (pq s') = length (pq s) \<and> store_cap s' = store_cap s"
  by (auto simp: reset_def)

lemma sp_now_size:
  assumes "sp_now c tn = (t, c')"
  shows "length (pq (lru c')) = length (pq (lru c)) \<and> store_cap (lru c') = store_cap (lru c) \<and>
         length (pq (mfa c')) = length (pq (mfa c)) \<and> store_cap (mfa c') = store_cap (mfa c)"
  using assms
  by (auto simp: sp_now_def Let_def split: option.splits if_splits prod.splits dest!: reset_size)

lemma sp_Put_bounded:
  assumes l: "length (pq (lru c)) \<le> store_cap (lru c)" and lc: "0 < store_cap (lru c)"
    and m: "length (pq (mfa c)) \<le> store_cap (mfa c)" and mc: "0 < store_cap (mfa c)"
  shows "\<exists>c'. sp_Put (Some c) k v tn = Inr (Some c') \<and>
           length (pq (lru c')) \<le> store_cap (lru c') \<and> store_cap (lru c') = store_cap (lru c) \<and>
           length (pq (mfa c')) \<le> store_cap (mfa c') \<and> store_cap (mfa c') = store_cap (mfa c)"
proof -
  obtain t c1 where now1: "sp_now c tn = (t, c1)" by (cases "sp_now c tn")
  note sz = sp_now_size [OF now1]
  have l1: "length (pq (lru c1)) \<le> store_cap (lru c1)" "0 < store_cap (lru c1)"
    and m1: "length (pq (mfa c1)) \<le> store_cap (mfa c1)" "0 < store_cap (mfa c1)"
    using sz l lc m mc by simp_all
  obtain bm ms where um: "store_update (mfa c1) t k v = (bm, ms)" by (cases "store_update (mfa c1) t k v")
  obtain bl ls where ul: "store_update (lru c1) t k v = (bl, ls)" by (cases "store_update (lru c1) t k v")
  show ?thesis
  proof (cases bm)
    case True
    then show ?thesis
      using now1 um store_update_size [OF um] sz l1 m1 by (simp add: sp_Put_def)
  next
    case False
    note nbm = False
    show ?thesis
    proof (cases bl)
      case True
      then show ?thesis
        using now1 um ul nbm store_update_size [OF ul] sz l1 m1 by (simp add: sp_Put_def)
    next
      case False
      note nbl = False
      obtain lruovf l2 where p1: "store_put (lru c1) t k v 1 = Inr (lruovf, l2)"
        and l2: "length (pq l2) \<le> store_cap l2" "store_cap l2 = store_cap (lru c1)" "0 < length (pq l2)"
        using store_put_bounded [OF l1] by blast
      note start = now1 um ul nbm nbl p1
      obtain ovf2 m2 where p2: "store_put (mfa c1) t (item_key lruovf) (item_v lruovf) (item_a lruovf) = Inr (ovf2, m2)"
        and m2: "length (pq m2) \<le> store_cap m2" "store_cap m2 = store_cap (mfa c1)"
        using store_put_bounded [OF m1] by blast
      obtain ovf3 l3 where p3: "store_put l2 t (item_key ovf2) (item_v ovf2) 1 = Inr (ovf3, l3)"
        and l3: "length (pq l3) \<le> store_cap l3" "store_cap l3 = store_cap l2"
        using store_put_bounded [of l2] l2 l1 by (metis (no_types))
      obtain pl where pl: "peek l2 = Inr pl"
        using peek_mem [of l2] l2(3) by auto
      show ?thesis
      proof (cases "item_v lruovf = None")
        case True
        then show ?thesis
          using start l2 m1 sz by (simp add: sp_Put_def Let_def)
      next
        case False
        note some = False
        show ?thesis
        proof (cases "length (pq (mfa c1)) < store_cap (mfa c1)")
          case True
          then show ?thesis
            using start some p2 m2 l2 sz
            by (simp add: sp_Put_def Let_def store_Len_def store_capf_def)
        next
          case False
          note full = False
          then have "pq (mfa c1) \<noteq> []"
            using m1 by auto
          then obtain p where p: "peek (mfa c1) = Inr p"
            using peek_mem by blast
          show ?thesis
          proof (cases "item_a p < item_a lruovf \<or> (item_a p = item_a lruovf \<and> item_t p < item_t lruovf)")
            case True
            then show ?thesis
              using start some full p l2 m1 sz
              by (simp add: sp_Put_def Let_def store_Len_def store_capf_def)
          next
            case False
            then show ?thesis
              using start some full p p2 m2 p3 l3 pl l2 m1 sz
              by (simp add: sp_Put_def Let_def store_Len_def store_capf_def)
          qed
        qed
      qed
    qed
  qed
qed


lemma NewCache_bounded:
  assumes "NewCache sz = Inr (Some c)"
  shows "length (pq (lru c)) \<le> store_cap (lru c)" and "0 < store_cap (lru c)"
    and "length (pq (mfa c)) \<le> store_cap (mfa c)" and "0 < store_cap (mfa c)"
    and "store_cap (lru c) + store_cap (mfa c) = nat sz"
proof -
  have sz: "2 \<le> sz" and c: "c = \<lparr>lru = newStore (sz div 2) byTime,
                       mfa = newStore (sz div 2 + sz mod 2) byAccesses,
                       sp_t = 0, capacity = sz\<rparr>"
    using assms by (auto simp: NewCache_def split: if_splits)
  have "0 < sz div 2" using sz by simp
  moreover have "nat (sz div 2) + nat (sz div 2 + sz mod 2) = nat sz"
    using sz by (simp add: nat_add_distrib [symmetric])
  ultimately show "length (pq (lru c)) \<le> store_cap (lru c)" and "0 < store_cap (lru c)"
    and "length (pq (mfa c)) \<le> store_cap (mfa c)" and "0 < store_cap (mfa c)"
    and "store_cap (lru c) + store_cap (mfa c) = nat sz"
    using sz by (simp_all add: c newStore_def)
qed

lemma sp_Puts_bounded:
  assumes "length (pq (lru c)) \<le> store_cap (lru c)" and "0 < store_cap (lru c)"
    and "length (pq (mfa c)) \<le> store_cap (mfa c)" and "0 < store_cap (mfa c)"
  shows "\<exists>c'. sp_Puts (Some c) ops = Inr (Some c') \<and>
           length (pq (lru c')) \<le> store_cap (lru c') \<and> store_cap (lru c') = store_cap (lru c) \<and>
           length (pq (mfa c')) \<le> store_cap (mfa c') \<and> store_cap (mfa c') = store_cap (mfa c)"
  using assms
proof (induction ops arbitrary: c)
  case Nil
  then show ?case by simp
next
  case (Cons op ops)
  obtain k v tn where op: "op = (k, v, tn)" by (cases op)
  obtain c1 where c1: "sp_Put (Some c) k v tn = Inr (Some c1)"
    "length (pq (lru c1)) \<le> store_cap (lru c1)" "store_cap (lru c1) = store_cap (lru c)"
    "length (pq (mfa c1)) \<le> store_cap (mfa c1)" "store_cap (mfa c1) = store_cap (mfa c)"
    using sp_Put_bounded [OF Cons.prems, of k v tn] by blast
  then obtain c' where "sp_Puts (Some c1) ops = Inr (Some c')"
    "length (pq (lru c')) \<le> store_cap (lru c')" "store_cap (lru c') = store_cap (lru c1)"
    "length (pq (mfa c')) \<le> store_cap (mfa c')" "store_cap (mfa c') = store_cap (mfa c1)"
    using Cons.IH [of c1] Cons.prems by auto
  then show ?case using c1 op by simp
qed

text \<open>
  Claim C2. On a cache constructed by \<open>NewCache\<close> with a capacity \<open>sz\<close>, every sequence
  of \<open>Put\<close> calls runs without a panic and leads to a cache whose \<open>Len\<close> is at most its
  \<open>Cap\<close>, and \<open>Cap\<close> is \<open>sz\<close>. Every state reached on the way is the state after a
  shorter sequence, so the bound holds after every operation.
\<close>

theorem cache_len_le_cap:
  assumes "NewCache sz = Inr (Some c0)"
  shows "\<exists>c n. sp_Puts (Some c0) ops = Inr (Some c) \<and> sp_Len (Some c) = Inr n \<and>
           sp_Cap (Some c) = Inr (nat sz) \<and> n \<le> nat sz"
proof -
  note b = NewCache_bounded [OF assms]
  obtain c where "sp_Puts (Some c0) ops = Inr (Some c)"
    "length (pq (lru c)) \<le> store_cap (lru c)" "store_cap (lru c) = store_cap (lru c0)"
    "length (pq (mfa c)) \<le> store_cap (mfa c)" "store_cap (mfa c) = store_cap (mfa c0)"
    using sp_Puts_bounded [OF b(1-4), of ops] by blast
  then show ?thesis
    using b by (simp add: sp_Len_def sp_Cap_def store_Len_def store_capf_def)
qed


text \<open>The claim at capacity 2 and three insertions: two items are kept.\<close>

theorem cache_len_le_cap_witness:
  "NewCache 2 = Inr (Some ex_sp_cache) \<and>
   sp_Puts (Some ex_sp_cache) ex_puts = Inr (Some ex_sp_cache_after) \<and>
   sp_Len (Some ex_sp_cache_after) = Inr 2 \<and>
   sp_Cap (Some ex_sp_cache_after) = Inr 2"
proof -
  have n: "NewCache 2 = Inr (Some ex_sp_cache)"
    by (simp add: NewCache_def maxsize_def ex_sp_cache_def)
  have run: "sp_Puts (Some ex_sp_cache) ex_puts = Inr (Some ex_sp_cache_after)"
    by (simp add: ex_sp_cache_def ex_puts_def ex_sp_cache_after_def sp_Put_def sp_now_def
        store_update_def store_put_def peek_def newStore_def Let_def store_Len_def
        store_capf_def zero_item_def)
  have len: "sp_Len (Some ex_sp_cache_after) = Inr 2"
    by (simp add: sp_Len_def store_Len_def ex_sp_cache_after_def)
  obtain c k where "sp_Puts (Some ex_sp_cache) ex_puts = Inr (Some c)" "sp_Len (Some c) = Inr k"
    "sp_Cap (Some c) = Inr (nat 2)" "k \<le> nat 2"
    using cache_len_le_cap [OF n, of ex_puts] by blast
  then show ?thesis using n run len by simp
qed

end
